theory Spec2Isabelle
  imports Complex_Main "HOL-Library.Word" "HOL-Library.AList" "HOL-Library.Log_Nat"
begin

section \<open>Data model\<close>

text \<open>
  The volume is the numpy array \<open>data\<close> of \<^verbatim>\<open>generate_octree.py\<close>, indexed
  \<open>data[z, y, x]\<close>: its shape (\<open>shape0 = nz\<close>, \<open>shape1 = ny\<close>, \<open>shape2 = nx\<close>) and one
  sample per index triple.  Coordinates, sizes and depths are Python integers, hence
  \<open>int\<close>.

  A sample is a float32 value: a finite one, given by the real number it denotes, an
  infinity or a NaN.
\<close>

datatype f32 = Finite real | PosInf | NegInf | NaN

type_synonym byte = "8 word"
type_synonym coord = "int \<times> int \<times> int"

record volume =
  shape0 :: nat
  shape1 :: nat
  shape2 :: nat
  sample :: "nat \<Rightarrow> nat \<Rightarrow> nat \<Rightarrow> f32"

text \<open>
  The indices selected by the slice \<open>a:b\<close> on an axis of length \<open>n\<close> (Python's rule for a
  slice of step 1: a negative bound counts from the end, then both bounds are clipped to
  \<open>0..n\<close>).
\<close>

definition slice_bound :: "nat \<Rightarrow> int \<Rightarrow> nat" where
  "slice_bound n i = (if i < 0 then nat (max 0 (i + int n)) else nat (min i (int n)))"

definition py_slice :: "nat \<Rightarrow> int \<Rightarrow> int \<Rightarrow> nat list" where
  "py_slice n a b = [slice_bound n a ..< slice_bound n b]"

text \<open>\<open>data[minz:minz + sz, miny:miny + sy, minx:minx + sx].flatten()\<close>, in row-major order.\<close>

fun sub_data :: "volume \<Rightarrow> coord \<Rightarrow> coord \<Rightarrow> f32 list" where
  "sub_data data (minx, miny, minz) (sx, sy, sz) =
       (concat (map (\<lambda>z. concat (map (\<lambda>y. map (\<lambda>x. sample data z y x)
            (py_slice (shape2 data) minx (minx + sx)))
            (py_slice (shape1 data) miny (miny + sy))))
            (py_slice (shape0 data) minz (minz + sz))))"

fun is_finite :: "f32 \<Rightarrow> bool" where
  "is_finite (Finite r) = True"
| "is_finite v = False"

fun real_of :: "f32 \<Rightarrow> real" where
  "real_of (Finite r) = r"
| "real_of v = 0"

text \<open>
  The test \<open>np.max(vals) - np.min(vals) <= 50\<close> on a non-empty \<open>vals\<close>.  A NaN sample
  makes the maximum NaN, an infinite sample makes the difference infinite or NaN, and the
  comparison is then false.  On finite samples the float32 subtraction returns the float32
  value nearest to the exact difference (ties go to the even significand, an overflow gives
  infinity).  The float32 values next to 50 are 50 itself and \<open>50 + 2^-18\<close>, and the
  significand of 50 is even: the rounded difference is at most 50 exactly when the exact
  difference is at most \<open>50 + 2^-19\<close>.
\<close>

definition fluctuation_le_50 :: "f32 list \<Rightarrow> bool" where
  "fluctuation_le_50 vals =
     (list_all is_finite vals
      \<and> Max (set (map real_of vals)) - Min (set (map real_of vals)) \<le> 50 + 1 / 2 ^ 19)"

text \<open>
  \<open>np.mean(vals)\<close> is numpy's: on float32 data it adds in float32, in an order of its own,
  and rounds after every addition and after the division.  It is the parameter \<open>np_mean\<close>
  of the builders.
\<close>

section \<open>Block-value builder (\<^verbatim>\<open>generate_octree.py\<close>)\<close>

datatype node = Leaf f32 | Internal "node list"

text \<open>
  The three nested loops \<open>for dx in [0, 1]: for dy in [0, 1]: for dz in [0, 1]\<close> of
  \<open>OctreeNode.__init__\<close>: origin and size of each child, in the order of creation.
\<close>

fun block_children :: "coord \<Rightarrow> coord \<Rightarrow> (coord \<times> coord) list" where
  "block_children (minx, miny, minz) (sx, sy, sz) =
       (let halfx = (sx + 1) div 2; halfy = (sy + 1) div 2; halfz = (sz + 1) div 2 in
        concat (map (\<lambda>dx. concat (map (\<lambda>dy. map (\<lambda>dz.
            ((minx + dx * halfx, miny + dy * halfy, minz + dz * halfz),
             (if dx = 0 then halfx else sx - halfx,
              if dy = 0 then halfy else sy - halfy,
              if dz = 0 then halfz else sz - halfz)))
          [0, 1]) [0, 1])) [0, 1]))"

lemma block_children_smaller:
  assumes "(c, s) \<in> set (block_children (minx, miny, minz) (sx, sy, sz))"
    and "\<not> min sx (min sy sz) < 2"
  shows "nat (fst s) < nat sx"
  using assms by (auto simp: Let_def)

declare sub_data.simps [simp del] block_children.simps [simp del]

function OctreeNode :: "(f32 list \<Rightarrow> f32) \<Rightarrow> coord \<Rightarrow> coord \<Rightarrow> volume \<Rightarrow> node" where
  "OctreeNode np_mean (minx, miny, minz) (sx, sy, sz) data =
     (let vals = sub_data data (minx, miny, minz) (sx, sy, sz) in
      if sx \<le> 1 \<and> sy \<le> 1 \<and> sz \<le> 1 then Leaf (if vals \<noteq> [] then hd vals else Finite 0)
      else if vals = [] then Leaf (Finite 0)
      else if fluctuation_le_50 vals then Leaf (np_mean vals)
      else if min sx (min sy sz) < 2 then Leaf (np_mean vals)
      else Internal (map (\<lambda>(c, s). OctreeNode np_mean c s data)
                      (block_children (minx, miny, minz) (sx, sy, sz))))"
  by pat_completeness auto
termination
proof (relation "measure (\<lambda>(m, c, s, d). nat (fst s))")
  fix np_mean :: "f32 list \<Rightarrow> f32" and minx miny minz sx sy sz :: int and data :: volume
    and x :: "coord \<times> coord" and c s
  assume "\<not> min sx (min sy sz) < 2"
    and "x \<in> set (block_children (minx, miny, minz) (sx, sy, sz))"
    and "(c, s) = x"
  then show "((np_mean, c, s, data), np_mean, (minx, miny, minz), (sx, sy, sz), data)
      \<in> measure (\<lambda>(m, c, s, d). nat (fst s))"
    using block_children_smaller [of c s minx miny minz sx sy sz] by simp
qed simp

declare OctreeNode.simps [simp del]

section \<open>Point-sample builder (\<^verbatim>\<open>generate_point_octree.py\<close>)\<close>

datatype pnode = PLeaf f32 coord | PInternal "pnode list"

text \<open>
  The loops of \<open>PointOctreeNode.__init__\<close> nest the other way round:
  \<open>for dz in [0, 1]: for dy in [0, 1]: for dx in [0, 1]\<close>.
\<close>

fun point_children :: "coord \<Rightarrow> coord \<Rightarrow> (coord \<times> coord) list" where
  "point_children (minx, miny, minz) (sx, sy, sz) =
       (let halfx = (sx + 1) div 2; halfy = (sy + 1) div 2; halfz = (sz + 1) div 2 in
        concat (map (\<lambda>dz. concat (map (\<lambda>dy. map (\<lambda>dx.
            ((minx + dx * halfx, miny + dy * halfy, minz + dz * halfz),
             (if dx = 0 then halfx else sx - halfx,
              if dy = 0 then halfy else sy - halfy,
              if dz = 0 then halfz else sz - halfz)))
          [0, 1]) [0, 1])) [0, 1]))"

declare point_children.simps [simp del]

fun center :: "coord \<Rightarrow> coord \<Rightarrow> coord" where
  "center (minx, miny, minz) (sx, sy, sz) = (minx + sx div 2, miny + sy div 2, minz + sz div 2)"

text \<open>
  \<open>0 <= center_x < data.shape[2] and 0 <= center_y < data.shape[1] and
  0 <= center_z < data.shape[0]\<close>, and the read \<open>data[center_z, center_y, center_x]\<close> it guards.
\<close>

fun in_bounds :: "volume \<Rightarrow> coord \<Rightarrow> bool" where
  "in_bounds data (center_x, center_y, center_z) =
     (0 \<le> center_x \<and> center_x < int (shape2 data) \<and> 0 \<le> center_y \<and> center_y < int (shape1 data)
      \<and> 0 \<le> center_z \<and> center_z < int (shape0 data))"

fun sample_at :: "volume \<Rightarrow> coord \<Rightarrow> f32" where
  "sample_at data (center_x, center_y, center_z) =
     sample data (nat center_z) (nat center_y) (nat center_x)"

function PointOctreeNode ::
    "(f32 list \<Rightarrow> f32) \<Rightarrow> coord \<Rightarrow> coord \<Rightarrow> volume \<Rightarrow> int \<Rightarrow> int \<Rightarrow> pnode" where
  "PointOctreeNode np_mean (minx, miny, minz) (sx, sy, sz) data max_depth current_depth =
     (let position = center (minx, miny, minz) (sx, sy, sz) in
      if current_depth \<ge> max_depth \<or> min sx (min sy sz) \<le> 1 then
        PLeaf (if in_bounds data position then sample_at data position else Finite 0) position
      else
        let vals = sub_data data (minx, miny, minz) (sx, sy, sz) in
        if vals = [] then PLeaf (Finite 0) position
        else if fluctuation_le_50 vals then
          PLeaf (if in_bounds data position then sample_at data position
                 else if vals \<noteq> [] then np_mean vals else Finite 0) position
        else if min sx (min sy sz) < 2 then
          PLeaf (if in_bounds data position then sample_at data position
                 else if vals \<noteq> [] then np_mean vals else Finite 0) position
        else PInternal (map (\<lambda>(c, s). PointOctreeNode np_mean c s data max_depth
                                  (current_depth + 1))
                         (point_children (minx, miny, minz) (sx, sy, sz))))"
  by pat_completeness auto
termination
  by (relation "measure (\<lambda>(m, c, s, d, max_depth, current_depth).
        nat (max_depth - current_depth))")
     auto

declare PointOctreeNode.simps [simp del]

section \<open>Binary encoder (\<open>save\<close> and the header written by \<open>main\<close>)\<close>

datatype error = OverflowError | ZeroDivisionError | ValueError

text \<open>The four bytes of a 32-bit value, least significant first.\<close>

definition le32 :: "nat \<Rightarrow> byte list" where
  "le32 n = [of_nat n, of_nat (n div 256), of_nat (n div 65536), of_nat (n div 16777216)]"

text \<open>
  \<open>np.array(xs, dtype='<u4').tobytes()\<close> on Python integers: numpy raises OverflowError for
  an integer that does not fit 32 bits.
\<close>

definition u4_tobytes :: "nat list \<Rightarrow> error + byte list" where
  "u4_tobytes xs =
     (if list_all (\<lambda>n. n < 2 ^ 32) xs then Inr (concat (map le32 xs)) else Inl OverflowError)"

text \<open>
  \<open>np.array([v], dtype='<f4').tobytes()\<close>: the conversion of a value to the bit pattern of
  the nearest binary32 is numpy's; it is the parameter \<open>f4\<close> of the encoder.
\<close>

definition f4_tobytes :: "(f32 \<Rightarrow> 32 word) \<Rightarrow> f32 \<Rightarrow> byte list" where
  "f4_tobytes f4 v = le32 (unat (f4 v))"

fun save :: "(f32 \<Rightarrow> 32 word) \<Rightarrow> node \<Rightarrow> byte list" where
  "save f4 (Leaf v) = 0 # f4_tobytes f4 v"
| "save f4 (Internal children) = 1 # concat (map (save f4) children)"

fun coords_tobytes :: "(f32 \<Rightarrow> 32 word) \<Rightarrow> coord \<Rightarrow> byte list" where
  "coords_tobytes f4 (x, y, z) =
     f4_tobytes f4 (Finite (of_int x)) @ f4_tobytes f4 (Finite (of_int y))
       @ f4_tobytes f4 (Finite (of_int z))"

fun point_save :: "(f32 \<Rightarrow> 32 word) \<Rightarrow> pnode \<Rightarrow> byte list" where
  "point_save f4 (PLeaf v position) = 0 # f4_tobytes f4 v @ coords_tobytes f4 position"
| "point_save f4 (PInternal children) = 1 # concat (map (point_save f4) children)"

text \<open>
  The \<open>with open(output_file, 'wb')\<close> block of \<open>main\<close> in \<^verbatim>\<open>generate_octree.py\<close>, as a
  function of the variables \<open>nx\<close>, \<open>ny\<close>, \<open>nz\<close> and \<open>root\<close> (here \<open>tree\<close>) it uses: the
  header, then the tree.  The result is the content of the output file.
\<close>

definition write_octree :: "(f32 \<Rightarrow> 32 word) \<Rightarrow> nat \<Rightarrow> nat \<Rightarrow> nat \<Rightarrow> node \<Rightarrow> error + byte list" where
  "write_octree f4 nx ny nz tree =
     (case u4_tobytes [nx, ny, nz] of
        Inl e \<Rightarrow> Inl e
      | Inr header \<Rightarrow> Inr (header @ save f4 tree))"

text \<open>
  Building and encoding an array of any shape \<open>(nz, ny, nx)\<close>: the statement
  \<open>root = OctreeNode((0, 0, 0), (nx, ny, nz), data)\<close> and the block above.
\<close>

definition root_node :: "(f32 list \<Rightarrow> f32) \<Rightarrow> volume \<Rightarrow> node" where
  "root_node np_mean data =
     OctreeNode np_mean (0, 0, 0) (int (shape2 data), int (shape1 data), int (shape0 data)) data"

definition octree_file :: "(f32 list \<Rightarrow> f32) \<Rightarrow> (f32 \<Rightarrow> 32 word) \<Rightarrow> volume \<Rightarrow> error + byte list" where
  "octree_file np_mean f4 data =
     write_octree f4 (shape2 data) (shape1 data) (shape0 data) (root_node np_mean data)"

text \<open>
  \<open>main\<close> of \<^verbatim>\<open>generate_octree.py\<close>.  Its input is the sequence of float32 values of the
  file \<open>saltf\<close>.  The dimensions are the constants 676, 676 and 210, and
  \<open>reshape(nz, ny, nx)\<close> raises ValueError unless the file holds exactly
  \<open>210 * 676 * 676\<close> values; \<open>data[z, y, x]\<close> is then the value at index
  \<open>(z * 676 + y) * 676 + x\<close>.
\<close>

definition reshape_saltf :: "f32 list \<Rightarrow> volume" where
  "reshape_saltf saltf =
     \<lparr>shape0 = 210, shape1 = 676, shape2 = 676,
      sample = (\<lambda>z y x. saltf ! ((z * 676 + y) * 676 + x))\<rparr>"

definition generate_octree_main ::
    "(f32 list \<Rightarrow> f32) \<Rightarrow> (f32 \<Rightarrow> 32 word) \<Rightarrow> f32 list \<Rightarrow> error + byte list" where
  "generate_octree_main np_mean f4 saltf =
     (if length saltf \<noteq> 210 * 676 * 676 then Inl ValueError
      else octree_file np_mean f4 (reshape_saltf saltf))"

text \<open>
  The same for \<^verbatim>\<open>generate_point_octree.py\<close>:
  \<open>max_depth = int(np.log2(min(nx, ny, nz))) + 1\<close>, where for a zero dimension \<open>np.log2\<close>
  is minus infinity and \<open>int\<close> raises OverflowError; then the root, built with that
  \<open>max_depth\<close>, and the file.
\<close>

definition main_max_depth :: "volume \<Rightarrow> error + int" where
  "main_max_depth data =
     (let m = min (shape2 data) (min (shape1 data) (shape0 data)) in
      if m = 0 then Inl OverflowError else Inr (int (floorlog 2 m - 1) + 1))"

definition point_root_node :: "(f32 list \<Rightarrow> f32) \<Rightarrow> volume \<Rightarrow> int \<Rightarrow> pnode" where
  "point_root_node np_mean data max_depth =
     PointOctreeNode np_mean (0, 0, 0)
       (int (shape2 data), int (shape1 data), int (shape0 data)) data max_depth 0"

definition point_octree_file ::
    "(f32 list \<Rightarrow> f32) \<Rightarrow> (f32 \<Rightarrow> 32 word) \<Rightarrow> volume \<Rightarrow> error + byte list" where
  "point_octree_file np_mean f4 data =
     (case main_max_depth data of
        Inl e \<Rightarrow> Inl e
      | Inr max_depth \<Rightarrow>
          let root = point_root_node np_mean data max_depth in
          case u4_tobytes [shape2 data, shape1 data, shape0 data] of
            Inl e \<Rightarrow> Inl e
          | Inr header \<Rightarrow> Inr (header @ point_save f4 root))"

definition generate_point_octree_main ::
    "(f32 list \<Rightarrow> f32) \<Rightarrow> (f32 \<Rightarrow> 32 word) \<Rightarrow> f32 list \<Rightarrow> error + byte list" where
  "generate_point_octree_main np_mean f4 saltf =
     (if length saltf \<noteq> 210 * 676 * 676 then Inl ValueError
      else point_octree_file np_mean f4 (reshape_saltf saltf))"

section \<open>Decoder, fast mode (\<open>count_octree_points\<close> of \<^verbatim>\<open>analyze_octree.py\<close>)\<close>

text \<open>
  The open file is the list of bytes not yet read: \<open>f.read(k)\<close> returns \<open>take k f\<close> and
  leaves \<open>drop k f\<close>.  The three \<open>nonlocal\<close> counters are passed through the recursion.
\<close>

record counters =
  total_points :: nat
  leaf_points :: nat
  internal_nodes :: nat

function parse_node :: "byte list \<Rightarrow> counters \<Rightarrow> bool \<times> byte list \<times> counters"
  and parse_children :: "nat \<Rightarrow> byte list \<Rightarrow> counters \<Rightarrow> bool \<times> byte list \<times> counters"
where
  "parse_node f c =
     (case f of
        [] \<Rightarrow> (False, f, c)
      | node_type # f1 \<Rightarrow>
          if node_type = 0 then
            (let value_data = take 4 f1; f2 = drop 4 f1 in
             if length value_data < 4 then (False, f2, c)
             else (True, f2, c\<lparr>leaf_points := leaf_points c + 1,
                               total_points := total_points c + 1\<rparr>))
          else parse_children 8 f1 (c\<lparr>internal_nodes := internal_nodes c + 1,
                                      total_points := total_points c + 1\<rparr>))"
| "parse_children 0 f c = (True, f, c)"
| "parse_children (Suc n) f c =
     (case parse_node f c of
        (ok, f', c') \<Rightarrow> if \<not> ok then (False, f', c') else parse_children n f' c')"
  by pat_completeness auto

lemma parse_length:
  "parse_node_parse_children_dom (Inl (f, c)) \<Longrightarrow>
     length (fst (snd (parse_node f c))) \<le> length f"
  "parse_node_parse_children_dom (Inr (n, f, c)) \<Longrightarrow>
     length (fst (snd (parse_children n f c))) \<le> length f"
proof (induction f c and n f c rule: parse_node_parse_children.pinduct)
  case (1 f c)
  then show ?case by (auto simp: parse_node.psimps Let_def split: list.splits)
next
  case (2 f c)
  then show ?case by (simp add: parse_children.psimps)
next
  case (3 n f c)
  then show ?case
    by (fastforce simp: parse_children.psimps split: prod.splits)
qed

lemma parse_node_shorter:
  assumes "parse_node_parse_children_dom (Inl (f, c))" and "(ok, f', c') = parse_node f c"
  shows "length f' \<le> length f"
  using parse_length(1) [OF assms(1)] assms(2) [symmetric] by simp

termination parse_node
  apply (relation "inv_image (less_than <*lex*> less_than)
     (\<lambda>x. case x of Inl (f, c) \<Rightarrow> (length f, 0) | Inr (n, f, c) \<Rightarrow> (length f, Suc n))")
  apply (auto dest!: parse_node_shorter)
  done

declare parse_node.simps [simp del]

text \<open>\<open>struct.unpack('<I', bs)\<close>: the value of little-endian bytes.\<close>

definition le_value :: "byte list \<Rightarrow> nat" where
  "le_value bs = foldr (\<lambda>b n. unat b + 256 * n) bs 0"

text \<open>Python's \<open>a / b\<close> on integers.\<close>

definition truediv :: "int \<Rightarrow> int \<Rightarrow> error + real" where
  "truediv a b = (if b = 0 then Inl ZeroDivisionError else Inr (real_of_int a / real_of_int b))"

text \<open>
  What \<open>count_octree_points\<close> prints.  The statistics lines are printed in the order of the
  fields; a division that raises ends the output there and the handler prints the exception.
\<close>

record fast_stats =
  total_voxels :: nat
  total_nodes :: nat
  leaf_nodes :: nat
  internal_count :: nat
  compression_ratio :: "error + real"
  memory_saving :: "error + real"

datatype fast_output =
    FileTooSmall
  | CannotParse
  | Statistics fast_stats

definition count_octree_points :: "byte list \<Rightarrow> fast_output" where
  "count_octree_points file =
     (let header_data = take 12 file; f = drop 12 file in
      if length header_data < 12 then FileTooSmall
      else
        let nx = le_value (take 4 header_data);
            ny = le_value (take 4 (drop 4 header_data));
            nz = le_value (take 4 (drop 8 header_data));
            total_voxels = nx * ny * nz in
        case parse_node f \<lparr>total_points = 0, leaf_points = 0, internal_nodes = 0\<rparr> of
          (ok, f', c) \<Rightarrow>
            if ok then
              Statistics \<lparr>total_voxels = total_voxels,
                          total_nodes = total_points c,
                          leaf_nodes = leaf_points c,
                          internal_count = internal_nodes c,
                          compression_ratio = truediv (int total_voxels) (int (total_points c)),
                          memory_saving =
                            (case truediv (int (total_points c)) (int total_voxels) of
                               Inl e \<Rightarrow> Inl e
                             | Inr q \<Rightarrow> Inr ((1 - q) * 100))\<rparr>
            else CannotParse)"

section \<open>Decoder, detailed mode (\<open>detailed_octree_analysis\<close>)\<close>

record level_stat =
  leaves :: nat
  internals :: nat
  voxels :: int

text \<open>
  \<open>level_stats\<close> is a dictionary keyed by level; an association list keeps its insertion
  order.  \<open>enter_level\<close> is the \<open>if current_level not in level_stats\<close> statement.
\<close>

type_synonym level_stats = "(int \<times> level_stat) list"

definition enter_level :: "int \<Rightarrow> level_stats \<Rightarrow> level_stats" where
  "enter_level current_level level_stats =
     (if map_of level_stats current_level = None
      then level_stats @ [(current_level, \<lparr>leaves = 0, internals = 0, voxels = 0\<rparr>)]
      else level_stats)"

fun child_sizes :: "coord \<Rightarrow> coord list" where
  "child_sizes (size_x, size_y, size_z) =
     (let half_x = (size_x + 1) div 2; half_y = (size_y + 1) div 2; half_z = (size_z + 1) div 2 in
      [(half_x, half_y, half_z),
       (half_x, half_y, size_z - half_z),
       (half_x, size_y - half_y, half_z),
       (half_x, size_y - half_y, size_z - half_z),
       (size_x - half_x, half_y, half_z),
       (size_x - half_x, half_y, size_z - half_z),
       (size_x - half_x, size_y - half_y, half_z),
       (size_x - half_x, size_y - half_y, size_z - half_z)])"

declare child_sizes.simps [simp del]

function parse_node_detailed ::
    "coord \<Rightarrow> int \<Rightarrow> byte list \<Rightarrow> level_stats \<Rightarrow> (int \<times> nat \<times> nat) \<times> byte list \<times> level_stats"
  and detailed_children ::
    "coord list \<Rightarrow> int \<Rightarrow> int \<times> nat \<times> nat \<Rightarrow> byte list \<Rightarrow> level_stats
       \<Rightarrow> (int \<times> nat \<times> nat) \<times> byte list \<times> level_stats"
where
  "parse_node_detailed (size_x, size_y, size_z) current_level f level_stats =
     (case f of
        [] \<Rightarrow> ((0, 0, 0), f, level_stats)
      | node_type # f1 \<Rightarrow>
          let voxels_in_node = size_x * size_y * size_z;
              level_stats1 = enter_level current_level level_stats in
          if node_type = 0 then
            ((voxels_in_node, 1, 0), drop 4 f1,
             AList.map_entry current_level
               (\<lambda>s. s\<lparr>leaves := leaves s + 1, voxels := voxels s + voxels_in_node\<rparr>) level_stats1)
          else
            (case detailed_children (child_sizes (size_x, size_y, size_z)) (current_level + 1)
                    (0, 0, 0) f1
                    (AList.map_entry current_level (\<lambda>s. s\<lparr>internals := internals s + 1\<rparr>)
                       level_stats1) of
               ((total_voxels_in_subtree, total_leaf_nodes, total_internal_nodes), f', level_stats') \<Rightarrow>
                 ((total_voxels_in_subtree, total_leaf_nodes, total_internal_nodes + 1),
                  f', level_stats')))"
| "detailed_children [] level totals f level_stats = (totals, f, level_stats)"
| "detailed_children (child_size # rest) level (tot_v, tot_l, tot_i) f level_stats =
     (case parse_node_detailed child_size level f level_stats of
        ((cvx, cly, cin), f', level_stats') \<Rightarrow>
          detailed_children rest level (tot_v + cvx, tot_l + cly, tot_i + cin) f' level_stats')"
  by pat_completeness auto

lemma detailed_length:
  "parse_node_detailed_detailed_children_dom (Inl (s, l, f, ls)) \<Longrightarrow>
     length (fst (snd (parse_node_detailed s l f ls))) \<le> length f"
  "parse_node_detailed_detailed_children_dom (Inr (ss, l, t, f, ls)) \<Longrightarrow>
     length (fst (snd (detailed_children ss l t f ls))) \<le> length f"
proof (induction s l f ls and ss l t f ls rule: parse_node_detailed_detailed_children.pinduct)
  case (1 size_x size_y size_z current_level f level_stats)
  show ?case
  proof (cases f)
    case Nil
    with 1(1) show ?thesis by (simp add: parse_node_detailed.psimps)
  next
    case (Cons node_type f1)
    show ?thesis
    proof (cases "node_type = 0")
      case True
      with Cons 1(1) show ?thesis by (simp add: parse_node_detailed.psimps Let_def)
    next
      case False
      from 1(2) [OF Cons refl refl False] Cons False 1(1) show ?thesis
        by (auto simp: parse_node_detailed.psimps Let_def split: prod.splits)
    qed
  qed
next
  case (2 level totals f level_stats)
  then show ?case by (simp add: detailed_children.psimps)
next
  case (3 child_size rest level tot_v tot_l tot_i f level_stats)
  then show ?case
    by (fastforce simp: detailed_children.psimps split: prod.splits)
qed

lemma parse_node_detailed_shorter:
  assumes "parse_node_detailed_detailed_children_dom (Inl (s, l, f, ls))"
    and "(r, f', ls') = parse_node_detailed s l f ls"
  shows "length f' \<le> length f"
  using detailed_length(1) [OF assms(1)] assms(2) [symmetric] by simp

termination parse_node_detailed
  apply (relation "inv_image (less_than <*lex*> less_than)
     (\<lambda>x. case x of Inl (s, l, f, ls) \<Rightarrow> (length f, 0)
                  | Inr (ss, l, t, f, ls) \<Rightarrow> (length f, Suc (length ss)))")
  apply (auto dest!: parse_node_detailed_shorter)
  done

declare parse_node_detailed.simps [simp del]

text \<open>
  What \<open>detailed_octree_analysis\<close> prints: the totals, then the compression ratio and the
  average number of voxels per leaf (either division raises on a zero count, which ends the
  output with the exception), then the table of levels in ascending order, then the warning
  when the voxels counted differ from the header's.
\<close>

record detailed_stats =
  voxels_counted :: int
  leaves_counted :: nat
  internals_counted :: nat
  ratio :: real
  voxels_per_leaf :: real
  levels :: level_stats
  mismatch_warning :: bool

datatype detailed_output =
    DetailedFileTooSmall
  | DetailedException int nat nat error
  | DetailedStatistics detailed_stats

definition detailed_octree_analysis :: "byte list \<Rightarrow> detailed_output" where
  "detailed_octree_analysis file =
     (let header_data = take 12 file; f = drop 12 file in
      if length header_data < 12 then DetailedFileTooSmall
      else
        let nx = le_value (take 4 header_data);
            ny = le_value (take 4 (drop 4 header_data));
            nz = le_value (take 4 (drop 8 header_data));
            total_voxels = int (nx * ny * nz) in
        case parse_node_detailed (int nx, int ny, int nz) 0 f [] of
          ((total_voxels_counted, total_leaves, total_internals), f', level_stats) \<Rightarrow>
            (case truediv total_voxels (int (total_leaves + total_internals)) of
               Inl e \<Rightarrow> DetailedException total_voxels_counted total_leaves total_internals e
             | Inr r \<Rightarrow>
                (case truediv total_voxels (int total_leaves) of
                   Inl e \<Rightarrow> DetailedException total_voxels_counted total_leaves total_internals e
                 | Inr a \<Rightarrow>
                     DetailedStatistics \<lparr>voxels_counted = total_voxels_counted,
                       leaves_counted = total_leaves,
                       internals_counted = total_internals,
                       ratio = r,
                       voxels_per_leaf = a,
                       levels = sort_key fst level_stats,
                       mismatch_warning = (total_voxels_counted \<noteq> total_voxels)\<rparr>)))"

section \<open>Regions as sets of cells\<close>

text \<open>The integer cells of the box with a given origin and size, and the number of them.\<close>

fun cells :: "coord \<times> coord \<Rightarrow> coord set" where
  "cells ((ox, oy, oz), (sx, sy, sz)) =
     {(x, y, z). ox \<le> x \<and> x < ox + sx \<and> oy \<le> y \<and> y < oy + sy \<and> oz \<le> z \<and> z < oz + sz}"

fun voxel_count :: "coord \<Rightarrow> int" where
  "voxel_count (sx, sy, sz) = sx * sy * sz"

definition pairwise_disjoint :: "(coord \<times> coord) list \<Rightarrow> bool" where
  "pairwise_disjoint rs = (\<forall>j < length rs. \<forall>i < j. cells (rs ! i) \<inter> cells (rs ! j) = {})"

section \<open>The partition\<close>

lemma block_children_list:
  "block_children (ox, oy, oz) (sx, sy, sz) =
     [((ox, oy, oz), ((sx + 1) div 2, (sy + 1) div 2, (sz + 1) div 2)),
      ((ox, oy, oz + (sz + 1) div 2), ((sx + 1) div 2, (sy + 1) div 2, sz - (sz + 1) div 2)),
      ((ox, oy + (sy + 1) div 2, oz), ((sx + 1) div 2, sy - (sy + 1) div 2, (sz + 1) div 2)),
      ((ox, oy + (sy + 1) div 2, oz + (sz + 1) div 2),
         ((sx + 1) div 2, sy - (sy + 1) div 2, sz - (sz + 1) div 2)),
      ((ox + (sx + 1) div 2, oy, oz), (sx - (sx + 1) div 2, (sy + 1) div 2, (sz + 1) div 2)),
      ((ox + (sx + 1) div 2, oy, oz + (sz + 1) div 2),
         (sx - (sx + 1) div 2, (sy + 1) div 2, sz - (sz + 1) div 2)),
      ((ox + (sx + 1) div 2, oy + (sy + 1) div 2, oz),
         (sx - (sx + 1) div 2, sy - (sy + 1) div 2, (sz + 1) div 2)),
      ((ox + (sx + 1) div 2, oy + (sy + 1) div 2, oz + (sz + 1) div 2),
         (sx - (sx + 1) div 2, sy - (sy + 1) div 2, sz - (sz + 1) div 2))]"
  by (simp add: block_children.simps Let_def)

lemma cells_apart_x:
  "ox + sx \<le> ox' \<Longrightarrow>
     cells ((ox, oy, oz), (sx, sy, sz)) \<inter> cells ((ox', oy', oz'), (sx', sy', sz')) = {}"
  by auto

lemma cells_apart_y:
  "oy + sy \<le> oy' \<Longrightarrow>
     cells ((ox, oy, oz), (sx, sy, sz)) \<inter> cells ((ox', oy', oz'), (sx', sy', sz')) = {}"
  by auto

lemma cells_apart_z:
  "oz + sz \<le> oz' \<Longrightarrow>
     cells ((ox, oy, oz), (sx, sy, sz)) \<inter> cells ((ox', oy', oz'), (sx', sy', sz')) = {}"
  by auto

lemma block_children_apart:
  "sorted_wrt (\<lambda>a b. cells a \<inter> cells b = {}) (block_children (ox, oy, oz) (sx, sy, sz))"
  unfolding block_children_list
  by (simp del: cells.simps add: cells_apart_x cells_apart_y cells_apart_z)

lemma block_children_disjoint: "pairwise_disjoint (block_children (ox, oy, oz) (sx, sy, sz))"
  using block_children_apart [of ox oy oz sx sy sz]
  unfolding pairwise_disjoint_def sorted_wrt_iff_nth_less by blast

lemma cells_Times:
  "cells ((ox, oy, oz), (sx, sy, sz)) = {ox ..< ox + sx} \<times> {oy ..< oy + sy} \<times> {oz ..< oz + sz}"
  by auto

lemma halves_join:
  fixes a s :: int
  shows "{a ..< a + (s + 1) div 2} \<union> {a + (s + 1) div 2 ..< a + (s + 1) div 2 + (s - (s + 1) div 2)}
       = {a ..< a + s}"
  by auto

lemma Times_octants:
  "A1 \<times> B1 \<times> C1 \<union> (A1 \<times> B1 \<times> C2 \<union> (A1 \<times> B2 \<times> C1 \<union> (A1 \<times> B2 \<times> C2 \<union>
   (A2 \<times> B1 \<times> C1 \<union> (A2 \<times> B1 \<times> C2 \<union> (A2 \<times> B2 \<times> C1 \<union> A2 \<times> B2 \<times> C2))))))
   = (A1 \<union> A2) \<times> (B1 \<union> B2) \<times> (C1 \<union> C2)"
  by blast

lemma block_children_cover:
  "(\<Union>r \<in> set (block_children (ox, oy, oz) (sx, sy, sz)). cells r)
     = cells ((ox, oy, oz), (sx, sy, sz))"
  unfolding block_children_list
  by (simp only: list.set UN_insert UN_empty Un_empty_right cells_Times Times_octants halves_join)

lemma block_children_volume:
  "sum_list (map (voxel_count \<circ> snd) (block_children (ox, oy, oz) (sx, sy, sz))) = sx * sy * sz"
  unfolding block_children_list
  by (simp add: algebra_simps)

lemma child_sizes_volume:
  "sum_list (map voxel_count (child_sizes (sx, sy, sz))) = sx * sy * sz"
  by (simp add: child_sizes.simps Let_def algebra_simps)

text \<open>
  Claim C2 (partition completeness).  For a region whose three sizes are at least 1, the
  halving loops of the builder produce 8 children whose cell sets are pairwise disjoint and
  whose union is the cell set of the parent; the volumes of the 8 children add up to the volume
  of the parent, and so do the volumes of the 8 child sizes the detailed decoder derives.  No
  parity of a size is assumed.
\<close>

theorem partition_completeness:
  assumes "1 \<le> sx" and "1 \<le> sy" and "1 \<le> sz"
  shows "length (block_children (ox, oy, oz) (sx, sy, sz)) = 8
    \<and> pairwise_disjoint (block_children (ox, oy, oz) (sx, sy, sz))
    \<and> (\<Union>r \<in> set (block_children (ox, oy, oz) (sx, sy, sz)). cells r)
         = cells ((ox, oy, oz), (sx, sy, sz))
    \<and> sum_list (map (voxel_count \<circ> snd) (block_children (ox, oy, oz) (sx, sy, sz)))
         = voxel_count (sx, sy, sz)
    \<and> length (child_sizes (sx, sy, sz)) = 8
    \<and> sum_list (map voxel_count (child_sizes (sx, sy, sz))) = voxel_count (sx, sy, sz)"
proof -
  have "length (block_children (ox, oy, oz) (sx, sy, sz)) = 8"
    by (simp add: block_children_list)
  moreover have "length (child_sizes (sx, sy, sz)) = 8"
    by (simp add: child_sizes.simps Let_def)
  ultimately show ?thesis
    using block_children_disjoint [of ox oy oz sx sy sz]
      block_children_cover [of ox oy oz sx sy sz]
      block_children_volume [of ox oy oz sx sy sz]
      child_sizes_volume [of sx sy sz]
    by simp
qed

theorem partition_completeness_witness:
  "(1::int) \<le> 3 \<and> (1::int) \<le> 2 \<and> (1::int) \<le> 1
    \<and> pairwise_disjoint (block_children (0, 0, 0) (3, 2, 1))
    \<and> (\<Union>r \<in> set (block_children (0, 0, 0) (3, 2, 1)). cells r) = cells ((0, 0, 0), (3, 2, 1))
    \<and> sum_list (map (voxel_count \<circ> snd) (block_children (0, 0, 0) (3, 2, 1))) = 6
    \<and> sum_list (map voxel_count (child_sizes (3, 2, 1))) = 6"
  using partition_completeness [of 3 2 1 0 0 0] by simp

section \<open>The order of the children\<close>

lemma point_children_list:
  "point_children (ox, oy, oz) (sx, sy, sz) =
     [((ox, oy, oz), ((sx + 1) div 2, (sy + 1) div 2, (sz + 1) div 2)),
      ((ox + (sx + 1) div 2, oy, oz), (sx - (sx + 1) div 2, (sy + 1) div 2, (sz + 1) div 2)),
      ((ox, oy + (sy + 1) div 2, oz), ((sx + 1) div 2, sy - (sy + 1) div 2, (sz + 1) div 2)),
      ((ox + (sx + 1) div 2, oy + (sy + 1) div 2, oz),
         (sx - (sx + 1) div 2, sy - (sy + 1) div 2, (sz + 1) div 2)),
      ((ox, oy, oz + (sz + 1) div 2), ((sx + 1) div 2, (sy + 1) div 2, sz - (sz + 1) div 2)),
      ((ox + (sx + 1) div 2, oy, oz + (sz + 1) div 2),
         (sx - (sx + 1) div 2, (sy + 1) div 2, sz - (sz + 1) div 2)),
      ((ox, oy + (sy + 1) div 2, oz + (sz + 1) div 2),
         ((sx + 1) div 2, sy - (sy + 1) div 2, sz - (sz + 1) div 2)),
      ((ox + (sx + 1) div 2, oy + (sy + 1) div 2, oz + (sz + 1) div 2),
         (sx - (sx + 1) div 2, sy - (sy + 1) div 2, sz - (sz + 1) div 2))]"
  by (simp add: point_children.simps Let_def)

text \<open>
  The order of the point-sample builder, read off the block-value builder's: its eight
  children are those of the block-value builder taken at the positions 0, 4, 2, 6, 1, 5, 3, 7.
\<close>

definition point_order :: "'a list \<Rightarrow> 'a list" where
  "point_order xs = map (\<lambda>i. xs ! i) [0, 4, 2, 6, 1, 5, 3, 7]"

text \<open>
  Claim C3, as amended (partition order).  The block-value builder creates, and so the
  encoder writes, the 8 children in the order in which the detailed decoder derives the 8
  child sizes (x outermost, z innermost).  The point-sample builder creates the same 8
  regions in the order with z outermost and x innermost, which is that order permuted.
\<close>

theorem partition_order:
  "map snd (block_children (ox, oy, oz) (sx, sy, sz)) = child_sizes (sx, sy, sz)
   \<and> point_children (ox, oy, oz) (sx, sy, sz) = point_order (block_children (ox, oy, oz) (sx, sy, sz))
   \<and> map snd (point_children (ox, oy, oz) (sx, sy, sz)) = point_order (child_sizes (sx, sy, sz))"
  by (simp add: block_children_list point_children_list child_sizes.simps Let_def point_order_def)

text \<open>
  Claim C3 as stated fails for the point-sample builder: for a 3 x 3 x 3 region its second
  child has size (1, 2, 2), the decoder's second child size is (2, 2, 1).
\<close>

theorem partition_order_counterexample:
  "\<not> (map snd (block_children (0, 0, 0) (3, 3, 3)) = child_sizes (3, 3, 3)
      \<and> map snd (point_children (0, 0, 0) (3, 3, 3)) = child_sizes (3, 3, 3))"
  by (simp add: point_children_list child_sizes.simps Let_def)


section \<open>The leaf decision of the block-value builder\<close>

lemma py_slice_short: "0 \<le> s \<Longrightarrow> s \<le> 1 \<Longrightarrow> length (py_slice n a (a + s)) \<le> 1"
  by (auto simp: py_slice_def slice_bound_def)

lemma short_list: "length xs \<le> 1 \<Longrightarrow> xs = [] \<or> (\<exists>x. xs = [x])"
  by (cases xs) auto

lemma sub_data_single:
  assumes "0 \<le> sx" "0 \<le> sy" "0 \<le> sz" "sx \<le> 1" "sy \<le> 1" "sz \<le> 1"
  shows "length (sub_data data (minx, miny, minz) (sx, sy, sz)) \<le> 1"
  using short_list [OF py_slice_short [OF assms(1) assms(4), of "shape2 data" minx]]
    short_list [OF py_slice_short [OF assms(2) assms(5), of "shape1 data" miny]]
    short_list [OF py_slice_short [OF assms(3) assms(6), of "shape0 data" minz]]
  by (auto simp: sub_data.simps)

fun is_leaf :: "node \<Rightarrow> bool" where
  "is_leaf (Leaf v) = True"
| "is_leaf (Internal children) = False"

text \<open>The maximum minus the minimum of finite samples, without rounding.\<close>

definition exact_fluctuation :: "f32 list \<Rightarrow> real" where
  "exact_fluctuation vals = Max (set (map real_of vals)) - Min (set (map real_of vals))"

text \<open>
  Claim C4, as amended (leaf decision and leaf value of the block-value builder).  For a
  region with non-negative sizes, with \<open>vals\<close> the samples of the region: the node built is a
  leaf exactly when all sizes are at most 1, or there is no sample, or the float32 difference
  of the maximum and the minimum is at most 50, or the smallest size is below 2.  The float32
  difference is at most 50 exactly when all samples are finite and the exact difference is at
  most \<open>50 + 2^-19\<close>.  The value of the leaf is 0 when there is no sample; the single sample
  when all sizes are at most 1; otherwise what \<open>np.mean\<close> returns for the samples.  In the
  remaining case the node is internal and its children are the nodes built for the 8 regions
  of the partition, in that order.
\<close>

theorem block_leaf_decision:
  fixes data :: volume and minx miny minz sx sy sz :: int and np_mean :: "f32 list \<Rightarrow> f32"
  defines "vals \<equiv> sub_data data (minx, miny, minz) (sx, sy, sz)"
    and "built \<equiv> OctreeNode np_mean (minx, miny, minz) (sx, sy, sz) data"
  assumes nonneg: "0 \<le> sx" "0 \<le> sy" "0 \<le> sz"
  shows "(is_leaf built \<longleftrightarrow>
            (sx \<le> 1 \<and> sy \<le> 1 \<and> sz \<le> 1) \<or> vals = [] \<or> fluctuation_le_50 vals
            \<or> min sx (min sy sz) < 2)
    \<and> (fluctuation_le_50 vals \<longleftrightarrow>
          list_all is_finite vals \<and> exact_fluctuation vals \<le> 50 + 1 / 2 ^ 19)
    \<and> (vals = [] \<longrightarrow> built = Leaf (Finite 0))
    \<and> (sx \<le> 1 \<and> sy \<le> 1 \<and> sz \<le> 1 \<and> vals \<noteq> [] \<longrightarrow> (\<exists>v. vals = [v] \<and> built = Leaf v))
    \<and> (\<not> (sx \<le> 1 \<and> sy \<le> 1 \<and> sz \<le> 1) \<and> vals \<noteq> []
          \<and> (fluctuation_le_50 vals \<or> min sx (min sy sz) < 2) \<longrightarrow>
          built = Leaf (np_mean vals))
    \<and> (\<not> ((sx \<le> 1 \<and> sy \<le> 1 \<and> sz \<le> 1) \<or> vals = [] \<or> fluctuation_le_50 vals
            \<or> min sx (min sy sz) < 2) \<longrightarrow>
          built = Internal (map (\<lambda>(c, s). OctreeNode np_mean c s data)
                             (block_children (minx, miny, minz) (sx, sy, sz)))
          \<and> length (block_children (minx, miny, minz) (sx, sy, sz)) = 8)"
proof -
  have len8: "length (block_children (minx, miny, minz) (sx, sy, sz)) = 8"
    by (simp add: block_children_list)
  have fl: "fluctuation_le_50 vals \<longleftrightarrow>
      list_all is_finite vals \<and> exact_fluctuation vals \<le> 50 + 1 / 2 ^ 19"
    by (simp add: fluctuation_le_50_def exact_fluctuation_def)
  have single: "\<exists>v. vals = [v]" if "sx \<le> 1 \<and> sy \<le> 1 \<and> sz \<le> 1" "vals \<noteq> []"
    using short_list [OF sub_data_single [of sx sy sz data minx miny minz]] that nonneg
    by (auto simp: vals_def)
  show ?thesis
  proof (cases "sx \<le> 1 \<and> sy \<le> 1 \<and> sz \<le> 1")
    case True
    then have small: "min sx (min sy sz) < 2" by auto
    show ?thesis
    proof (cases "vals = []")
      case True
      with \<open>sx \<le> 1 \<and> sy \<le> 1 \<and> sz \<le> 1\<close> have "built = Leaf (Finite 0)"
        by (simp add: built_def vals_def OctreeNode.simps)
      with True small fl \<open>sx \<le> 1 \<and> sy \<le> 1 \<and> sz \<le> 1\<close> show ?thesis by simp
    next
      case False
      with single True obtain v where v: "vals = [v]" by blast
      with True have "built = Leaf v"
        by (simp add: built_def vals_def OctreeNode.simps)
      with v True small fl show ?thesis by simp
    qed
  next
    case False
    have "(is_leaf built \<longleftrightarrow>
            (sx \<le> 1 \<and> sy \<le> 1 \<and> sz \<le> 1) \<or> vals = [] \<or> fluctuation_le_50 vals
            \<or> min sx (min sy sz) < 2)
      \<and> (vals = [] \<longrightarrow> built = Leaf (Finite 0))
      \<and> (vals \<noteq> [] \<and> (fluctuation_le_50 vals \<or> min sx (min sy sz) < 2) \<longrightarrow>
            built = Leaf (np_mean vals))
      \<and> (\<not> ((sx \<le> 1 \<and> sy \<le> 1 \<and> sz \<le> 1) \<or> vals = [] \<or> fluctuation_le_50 vals
            \<or> min sx (min sy sz) < 2) \<longrightarrow>
          built = Internal (map (\<lambda>(c, s). OctreeNode np_mean c s data)
                             (block_children (minx, miny, minz) (sx, sy, sz))))"
      using False by (auto simp: built_def vals_def OctreeNode.simps Let_def)
    with False len8 fl show ?thesis by blast
  qed
qed

text \<open>
  An instance of the mean for concrete inputs: the mean without rounding.  It is what
  \<open>np.mean\<close> returns when the sums and the quotient are float32 values themselves, as they
  are for the few small integers of the inputs below.  A NaN, or infinities of both signs,
  give a NaN; otherwise an infinity gives that infinity.
\<close>

definition np_mean_exact :: "f32 list \<Rightarrow> f32" where
  "np_mean_exact vals =
     (if list_all is_finite vals then Finite (sum_list (map real_of vals) / real (length vals))
      else if NaN \<in> set vals \<or> (PosInf \<in> set vals \<and> NegInf \<in> set vals) then NaN
      else if PosInf \<in> set vals then PosInf
      else NegInf)"

text \<open>A 2 x 2 x 2 volume alternating between 0 and 1000, used as a concrete input.\<close>

definition checker_volume :: volume where
  "checker_volume =
     \<lparr>shape0 = 2, shape1 = 2, shape2 = 2,
      sample = (\<lambda>z y x. if even (x + y + z) then Finite 0 else Finite 1000)\<rparr>"

lemma checker_vals:
  "sub_data checker_volume (0, 0, 0) (2, 2, 2)
     = [Finite 0, Finite 1000, Finite 1000, Finite 0, Finite 1000, Finite 0, Finite 0, Finite 1000]"
  by (simp add: sub_data.simps py_slice_def slice_bound_def checker_volume_def upt_rec)

lemma checker_not_small: "\<not> fluctuation_le_50 (sub_data checker_volume (0, 0, 0) (2, 2, 2))"
  by (simp add: checker_vals fluctuation_le_50_def)

lemma checker_children:
  "map (\<lambda>(c, s). OctreeNode np_mean c s checker_volume) (block_children (0, 0, 0) (2, 2, 2))
     = [Leaf (Finite 0), Leaf (Finite 1000), Leaf (Finite 1000), Leaf (Finite 0),
        Leaf (Finite 1000), Leaf (Finite 0), Leaf (Finite 0), Leaf (Finite 1000)]"
  by (simp add: block_children_list OctreeNode.simps sub_data.simps py_slice_def slice_bound_def
      checker_volume_def upt_rec)

theorem block_leaf_decision_witness:
  "(0::int) \<le> 2
   \<and> \<not> fluctuation_le_50 (sub_data checker_volume (0, 0, 0) (2, 2, 2))
   \<and> OctreeNode np_mean_exact (0, 0, 0) (2, 2, 2) checker_volume
        = Internal [Leaf (Finite 0), Leaf (Finite 1000), Leaf (Finite 1000), Leaf (Finite 0),
                    Leaf (Finite 1000), Leaf (Finite 0), Leaf (Finite 0), Leaf (Finite 1000)]"
  using block_leaf_decision [where sx = 2 and sy = 2 and sz = 2 and data = checker_volume
      and minx = 0 and miny = 0 and minz = 0 and np_mean = np_mean_exact]
  by (simp add: checker_not_small checker_children) (simp add: checker_vals)

text \<open>
  The 2 x 2 x 2 volume with the sample 50 at the origin and \<open>-2^-30\<close> elsewhere.  Both are
  float32 values.
\<close>

definition near_volume :: volume where
  "near_volume =
     \<lparr>shape0 = 2, shape1 = 2, shape2 = 2,
      sample = (\<lambda>z y x. if x = 0 \<and> y = 0 \<and> z = 0 then Finite 50 else Finite (- (1 / 2 ^ 30)))\<rparr>"

lemma near_vals:
  "sub_data near_volume (0, 0, 0) (2, 2, 2)
     = [Finite 50, Finite (- (1 / 2 ^ 30)), Finite (- (1 / 2 ^ 30)), Finite (- (1 / 2 ^ 30)),
        Finite (- (1 / 2 ^ 30)), Finite (- (1 / 2 ^ 30)), Finite (- (1 / 2 ^ 30)),
        Finite (- (1 / 2 ^ 30))]"
  by (simp add: sub_data.simps py_slice_def slice_bound_def near_volume_def upt_rec)

text \<open>
  Claim C4 as stated fails at that volume: the maximum minus the minimum is
  \<open>50 + 2^-30\<close>, above 50, all sizes are 2, and the node built is a leaf, because the float32
  difference is 50.
\<close>

theorem block_leaf_decision_counterexample:
  "is_leaf (OctreeNode np_mean_exact (0, 0, 0) (2, 2, 2) near_volume)
   \<and> \<not> ((2::int) \<le> 1 \<and> (2::int) \<le> 1 \<and> (2::int) \<le> 1)
   \<and> sub_data near_volume (0, 0, 0) (2, 2, 2) \<noteq> []
   \<and> list_all is_finite (sub_data near_volume (0, 0, 0) (2, 2, 2))
   \<and> exact_fluctuation (sub_data near_volume (0, 0, 0) (2, 2, 2)) = 50 + 1 / 2 ^ 30
   \<and> \<not> exact_fluctuation (sub_data near_volume (0, 0, 0) (2, 2, 2)) \<le> 50
   \<and> \<not> min (2::int) (min 2 2) < 2"
proof -
  have e: "exact_fluctuation (sub_data near_volume (0, 0, 0) (2, 2, 2)) = 50 + 1 / 2 ^ 30"
    by (simp add: near_vals exact_fluctuation_def)
  have f: "fluctuation_le_50 (sub_data near_volume (0, 0, 0) (2, 2, 2))"
    by (simp add: near_vals fluctuation_le_50_def)
  have "is_leaf (OctreeNode np_mean_exact (0, 0, 0) (2, 2, 2) near_volume)"
    using f by (simp add: OctreeNode.simps Let_def)
  then show ?thesis
    using e by (simp add: near_vals)
qed

section \<open>Depth of the trees built\<close>

text \<open>
  The depth of a tree: the number of subdivisions between the root and its deepest node.  The
  constructor calls nested at that node are one more.
\<close>

fun depth :: "node \<Rightarrow> nat" where
  "depth (Leaf v) = 0"
| "depth (Internal children) = Suc (fold max (map depth children) 0)"

fun point_depth :: "pnode \<Rightarrow> nat" where
  "point_depth (PLeaf v position) = 0"
| "point_depth (PInternal children) = Suc (fold max (map point_depth children) 0)"

lemma fold_max_le: "fold max xs a \<le> (k::nat) \<longleftrightarrow> a \<le> k \<and> (\<forall>x \<in> set xs. x \<le> k)"
  by (induction xs arbitrary: a) auto

lemma block_children_halved:
  assumes "(c, s) \<in> set (block_children (minx, miny, minz) (sx, sy, sz))"
    and "sx \<le> 2 * m" "sy \<le> 2 * m" "sz \<le> 2 * m"
  shows "fst s \<le> m \<and> fst (snd s) \<le> m \<and> snd (snd s) \<le> m"
  using assms unfolding block_children_list by auto

lemma block_depth_le:
  "fst s \<le> 2 ^ k \<Longrightarrow> fst (snd s) \<le> 2 ^ k \<Longrightarrow> snd (snd s) \<le> 2 ^ k \<Longrightarrow>
     depth (OctreeNode np_mean c s data) \<le> k"
proof (induction np_mean c s data arbitrary: k rule: OctreeNode.induct)
  case (1 np_mean minx miny minz sx sy sz data)
  let ?vals = "sub_data data (minx, miny, minz) (sx, sy, sz)"
  show ?case
  proof (cases "(sx \<le> 1 \<and> sy \<le> 1 \<and> sz \<le> 1) \<or> ?vals = [] \<or> fluctuation_le_50 ?vals
      \<or> min sx (min sy sz) < 2")
    case True
    then show ?thesis by (auto simp: OctreeNode.simps Let_def)
  next
    case False
    then have big: "2 \<le> sx" by auto
    with "1.prems" have "k \<noteq> 0" by (cases k) auto
    then obtain j where k: "k = Suc j" by (cases k) auto
    have "depth (OctreeNode np_mean c s data) \<le> j"
      if "(c, s) \<in> set (block_children (minx, miny, minz) (sx, sy, sz))" for c s
    proof -
      have "fst s \<le> 2 ^ j \<and> fst (snd s) \<le> 2 ^ j \<and> snd (snd s) \<le> 2 ^ j"
        using block_children_halved [OF that, of "2 ^ j"] "1.prems" k by simp
      then show ?thesis
        using "1.IH" [OF refl _ _ _ _ that refl, of j] False by auto
    qed
    then show ?thesis
      using False k by (auto simp: OctreeNode.simps Let_def fold_max_le)
  qed
qed

lemma point_depth_le:
  "int (point_depth (PointOctreeNode np_mean c s data max_depth current_depth))
     \<le> max 0 (max_depth - current_depth)"
proof (induction np_mean c s data max_depth current_depth rule: PointOctreeNode.induct)
  case (1 np_mean minx miny minz sx sy sz data max_depth current_depth)
  let ?vals = "sub_data data (minx, miny, minz) (sx, sy, sz)"
  show ?case
  proof (cases "(current_depth \<ge> max_depth \<or> min sx (min sy sz) \<le> 1) \<or> ?vals = []
      \<or> fluctuation_le_50 ?vals \<or> min sx (min sy sz) < 2")
    case True
    then show ?thesis by (auto simp: PointOctreeNode.simps Let_def)
  next
    case False
    have "point_depth (PointOctreeNode np_mean c s data max_depth (current_depth + 1))
        \<le> nat (max_depth - current_depth - 1)"
      if "(c, s) \<in> set (point_children (minx, miny, minz) (sx, sy, sz))" for c s
    proof -
      have "int (point_depth (PointOctreeNode np_mean c s data max_depth (current_depth + 1)))
          \<le> max 0 (max_depth - (current_depth + 1))"
        using "1.IH" [OF refl _ refl _ _ _ that refl] False by auto
      then show ?thesis by linarith
    qed
    then have "fold max (map point_depth (map (\<lambda>(c, s). PointOctreeNode np_mean c s data max_depth
                 (current_depth + 1)) (point_children (minx, miny, minz) (sx, sy, sz)))) 0
               \<le> nat (max_depth - current_depth - 1)"
      unfolding fold_max_le by auto
    moreover have "PointOctreeNode np_mean (minx, miny, minz) (sx, sy, sz) data max_depth current_depth
        = PInternal (map (\<lambda>(c, s). PointOctreeNode np_mean c s data max_depth (current_depth + 1))
            (point_children (minx, miny, minz) (sx, sy, sz)))"
      using False by (auto simp: PointOctreeNode.simps Let_def)
    moreover have "current_depth < max_depth" using False by auto
    ultimately show ?thesis by simp
  qed
qed

lemma le_two_power_ceiling_log:
  assumes "0 < m"
  shows "int m \<le> 2 ^ nat \<lceil>log 2 (real m)\<rceil>"
proof -
  have nonneg: "0 \<le> log 2 (real m)" using assms by simp
  have "real m = 2 powr log 2 (real m)" using assms by simp
  also have "\<dots> \<le> 2 powr real_of_int \<lceil>log 2 (real m)\<rceil>"
    by (rule powr_mono) auto
  also have "\<dots> = 2 powr real (nat \<lceil>log 2 (real m)\<rceil>)"
    using nonneg by (simp add: ceiling_le_iff)
  also have "\<dots> = 2 ^ nat \<lceil>log 2 (real m)\<rceil>"
    by (simp add: powr_realpow)
  finally have "real m \<le> real_of_int (2 ^ nat \<lceil>log 2 (real m)\<rceil>)" by simp
  then show ?thesis by linarith
qed

lemma block_children_shrink:
  assumes "2 \<le> sx" and "2 \<le> sy" and "2 \<le> sz"
  shows "\<forall>(c, cx, cy, cz) \<in> set (block_children (minx, miny, minz) (sx, sy, sz)).
           1 \<le> cx \<and> cx < sx \<and> 1 \<le> cy \<and> cy < sy \<and> 1 \<le> cz \<and> cz < sz"
proof -
  have h: "1 \<le> (s + 1) div 2 \<and> (s + 1) div 2 < s \<and> 1 \<le> s - (s + 1) div 2
      \<and> 0 < (s + 1) div 2" if "2 \<le> s" for s :: int
    using that by linarith
  show ?thesis
    unfolding block_children_list using h [OF assms(1)] h [OF assms(2)] h [OF assms(3)]
    by simp
qed

text \<open>
  Claim C8 (termination and depth bound).  Both constructors are total functions: their
  recursion is well-founded, on the shrinking x-size for the block-value builder and on
  \<open>max_depth - current_depth\<close> for the point-sample builder.  For a volume with
  positive dimensions the tree of the block-value builder has at most
  \<open>ceil(log2(max(nx, ny, nz))) + 1\<close> nested constructor calls (its depth plus one), and
  the depth of the tree of the point-sample builder is at most \<open>max_depth\<close> (at most 0
  when \<open>max_depth\<close> is negative).  The halving rule gives every child of a region
  whose sizes are all at least 2 sizes that are at least 1 and strictly smaller.
\<close>

theorem builder_depth_bound:
  assumes "0 < shape0 data" and "0 < shape1 data" and "0 < shape2 data"
  shows "int (depth (root_node np_mean data)) + 1
           \<le> \<lceil>log 2 (real (max (shape2 data) (max (shape1 data) (shape0 data))))\<rceil> + 1
    \<and> int (point_depth (point_root_node np_mean data max_depth)) \<le> max 0 max_depth
    \<and> (2 \<le> sx \<and> 2 \<le> sy \<and> 2 \<le> sz \<longrightarrow>
         (\<forall>(c, cx, cy, cz) \<in> set (block_children (minx, miny, minz) (sx, sy, sz)).
            1 \<le> cx \<and> cx < sx \<and> 1 \<le> cy \<and> cy < sy \<and> 1 \<le> cz \<and> cz < sz))"
proof -
  let ?m = "max (shape2 data) (max (shape1 data) (shape0 data))"
  let ?k = "nat \<lceil>log 2 (real ?m)\<rceil>"
  have m: "0 < ?m" using assms by simp
  have pow: "int ?m \<le> 2 ^ ?k" by (rule le_two_power_ceiling_log [OF m])
  have "int (shape2 data) \<le> 2 ^ ?k" "int (shape1 data) \<le> 2 ^ ?k" "int (shape0 data) \<le> 2 ^ ?k"
    using pow by linarith+
  then have "depth (root_node np_mean data) \<le> ?k"
    unfolding root_node_def by (intro block_depth_le) simp_all
  moreover have "0 \<le> log 2 (real ?m)" using m by simp
  ultimately have "int (depth (root_node np_mean data)) \<le> \<lceil>log 2 (real ?m)\<rceil>"
    by linarith
  moreover have "int (point_depth (point_root_node np_mean data max_depth)) \<le> max 0 max_depth"
    using point_depth_le [of np_mean "(0, 0, 0)" _ data max_depth 0] by (simp add: point_root_node_def)
  moreover have "\<forall>(c, cx, cy, cz) \<in> set (block_children (minx, miny, minz) (sx, sy, sz)).
            1 \<le> cx \<and> cx < sx \<and> 1 \<le> cy \<and> cy < sy \<and> 1 \<le> cz \<and> cz < sz"
    if "2 \<le> sx \<and> 2 \<le> sy \<and> 2 \<le> sz"
    using that by (intro block_children_shrink) simp_all
  ultimately show ?thesis by (intro conjI impI) simp_all
qed

theorem builder_depth_bound_witness:
  "0 < shape0 checker_volume \<and> 0 < shape1 checker_volume \<and> 0 < shape2 checker_volume
   \<and> int (depth (root_node np_mean_exact checker_volume)) + 1 \<le> 2
   \<and> int (point_depth (point_root_node np_mean_exact checker_volume 1)) \<le> 1
   \<and> (2::int) \<le> 3
   \<and> list_all (\<lambda>(c, cx, cy, cz). 1 \<le> cx \<and> cx < 3 \<and> 1 \<le> cy \<and> cy < 3 \<and> 1 \<le> cz \<and> cz < 3)
         (block_children (0, 0, 0) (3, 3, 3))"
  using builder_depth_bound [where data = checker_volume and max_depth = 1
      and np_mean = np_mean_exact
      and sx = 3 and sy = 3 and sz = 3 and minx = 0 and miny = 0 and minz = 0]
  by (simp add: checker_volume_def list_all_iff)

section \<open>Encoding followed by fast decoding\<close>

text \<open>The numbers of nodes, of leaves and of internal nodes of a tree.\<close>

fun count_nodes :: "node \<Rightarrow> nat" where
  "count_nodes (Leaf v) = 1"
| "count_nodes (Internal children) = 1 + sum_list (map count_nodes children)"

fun count_leaves :: "node \<Rightarrow> nat" where
  "count_leaves (Leaf v) = 1"
| "count_leaves (Internal children) = sum_list (map count_leaves children)"

fun count_internals :: "node \<Rightarrow> nat" where
  "count_internals (Leaf v) = 0"
| "count_internals (Internal children) = 1 + sum_list (map count_internals children)"

text \<open>An internal node has exactly 8 children, as every node the builder makes.\<close>

fun well_formed :: "node \<Rightarrow> bool" where
  "well_formed (Leaf v) = True"
| "well_formed (Internal children) = (length children = 8 \<and> list_all well_formed children)"

definition add_counts :: "counters \<Rightarrow> node \<Rightarrow> counters" where
  "add_counts c t =
     \<lparr>total_points = total_points c + count_nodes t,
      leaf_points = leaf_points c + count_leaves t,
      internal_nodes = internal_nodes c + count_internals t\<rparr>"

text \<open>
  A conversion to binary32 for concrete inputs: the bit patterns of 0.0, 1.0, 5.0, 7.0,
  1000.0 and plus infinity, the only values that occur in them.
\<close>

definition f4_examples :: "f32 \<Rightarrow> 32 word" where
  "f4_examples v =
     (if v = Finite 1 then 0x3F800000 else if v = Finite 5 then 0x40A00000
      else if v = Finite 7 then 0x40E00000 else if v = Finite 1000 then 0x447A0000
      else if v = PosInf then 0x7F800000 else 0)"

lemma OctreeNode_well_formed: "well_formed (OctreeNode np_mean c s data)"
proof (induction np_mean c s data rule: OctreeNode.induct)
  case (1 np_mean minx miny minz sx sy sz data)
  let ?vals = "sub_data data (minx, miny, minz) (sx, sy, sz)"
  show ?case
  proof (cases "(sx \<le> 1 \<and> sy \<le> 1 \<and> sz \<le> 1) \<or> ?vals = [] \<or> fluctuation_le_50 ?vals
      \<or> min sx (min sy sz) < 2")
    case True
    then show ?thesis by (auto simp: OctreeNode.simps Let_def)
  next
    case False
    have "well_formed (OctreeNode np_mean c s data)"
      if "(c, s) \<in> set (block_children (minx, miny, minz) (sx, sy, sz))" for c s
      using "1.IH" [OF refl _ _ _ _ that refl] False by auto
    moreover have "length (block_children (minx, miny, minz) (sx, sy, sz)) = 8"
      by (simp add: block_children_list)
    ultimately show ?thesis
      using False by (auto simp: OctreeNode.simps Let_def list_all_iff)
  qed
qed

lemma length_le32 [simp]: "length (le32 n) = 4"
  by (simp add: le32_def)

lemma length_f4_tobytes [simp]: "length (f4_tobytes f4 v) = 4"
  by (simp add: f4_tobytes_def)

lemma parse_node_leaf:
  "length value_data = 4 \<Longrightarrow>
   parse_node (0 # value_data @ rest) c =
     (True, rest, c\<lparr>leaf_points := leaf_points c + 1, total_points := total_points c + 1\<rparr>)"
  by (simp add: parse_node.simps)

lemma parse_node_internal:
  "node_type \<noteq> 0 \<Longrightarrow>
   parse_node (node_type # f1) c =
     parse_children 8 f1 (c\<lparr>internal_nodes := internal_nodes c + 1,
                             total_points := total_points c + 1\<rparr>)"
  by (simp add: parse_node.simps)

lemma parse_children_saved:
  assumes "\<And>t rest c. t \<in> set ts \<Longrightarrow> parse_node (save f4 t @ rest) c = (True, rest, add_counts c t)"
  shows "parse_children (length ts) (concat (map (save f4) ts) @ rest) c
           = (True, rest, foldl add_counts c ts)"
  using assms by (induction ts arbitrary: c) auto

lemma foldl_add_counts:
  "foldl add_counts c ts =
     \<lparr>total_points = total_points c + sum_list (map count_nodes ts),
      leaf_points = leaf_points c + sum_list (map count_leaves ts),
      internal_nodes = internal_nodes c + sum_list (map count_internals ts)\<rparr>"
  by (induction ts arbitrary: c) (auto simp: add_counts_def)

lemma parse_node_saved:
  "well_formed t \<Longrightarrow> parse_node (save f4 t @ rest) c = (True, rest, add_counts c t)"
proof (induction t arbitrary: rest c)
  case (Leaf v)
  show ?case
    using parse_node_leaf [of "f4_tobytes f4 v" rest c] by (simp add: add_counts_def)
next
  case (Internal children)
  have len: "length children = 8" using Internal.prems by simp
  have each: "parse_node (save f4 t @ rest) c = (True, rest, add_counts c t)"
    if "t \<in> set children" for t rest c
    using Internal.IH [OF that] Internal.prems that by (simp add: list_all_iff)
  have "parse_node (save f4 (Internal children) @ rest) c
      = parse_children (length children) (concat (map (save f4) children) @ rest)
          (c\<lparr>internal_nodes := internal_nodes c + 1, total_points := total_points c + 1\<rparr>)"
    using parse_node_internal [of 1] len by simp
  also have "\<dots> = (True, rest, foldl add_counts
      (c\<lparr>internal_nodes := internal_nodes c + 1, total_points := total_points c + 1\<rparr>) children)"
    by (rule parse_children_saved) (rule each)
  finally show ?case
    by (simp add: foldl_add_counts add_counts_def)
qed

lemma u4_tobytes_header:
  "u4_tobytes [a, b, c] = Inr header \<Longrightarrow>
     header = le32 a @ le32 b @ le32 c \<and> a < 2 ^ 32 \<and> b < 2 ^ 32 \<and> c < 2 ^ 32"
  by (auto simp: u4_tobytes_def split: if_splits)

text \<open>
  Claim C1 (round-trip structural integrity).  For every volume whose file is written, the
  fast mode decodes that file without a parse failure and reports as total, leaf and
  internal node counts the numbers of nodes, leaves and internal nodes of the tree the
  block-value builder made for the volume.
\<close>

theorem round_trip_counts:
  assumes "octree_file np_mean f4 data = Inr file"
  shows "\<exists>s. count_octree_points file = Statistics s
           \<and> total_nodes s = count_nodes (root_node np_mean data)
           \<and> leaf_nodes s = count_leaves (root_node np_mean data)
           \<and> internal_count s = count_internals (root_node np_mean data)"
proof -
  obtain header where h: "u4_tobytes [shape2 data, shape1 data, shape0 data] = Inr header"
    and file_eq: "file = header @ save f4 (root_node np_mean data)"
    using assms by (auto simp: octree_file_def write_octree_def Let_def split: sum.splits)
  have len: "length header = 12"
    using u4_tobytes_header [OF h] by simp
  have wf: "well_formed (root_node np_mean data)"
    by (simp add: root_node_def OctreeNode_well_formed)
  have "parse_node (save f4 (root_node np_mean data)) \<lparr>total_points = 0, leaf_points = 0, internal_nodes = 0\<rparr>
      = (True, [], add_counts \<lparr>total_points = 0, leaf_points = 0, internal_nodes = 0\<rparr> (root_node np_mean data))"
    using parse_node_saved [OF wf, of f4 "[]"] by simp
  then show ?thesis
    using len by (simp add: count_octree_points_def file_eq Let_def add_counts_def)
qed

lemma checker_root:
  "root_node np_mean_exact checker_volume
     = Internal [Leaf (Finite 0), Leaf (Finite 1000), Leaf (Finite 1000), Leaf (Finite 0),
                 Leaf (Finite 1000), Leaf (Finite 0), Leaf (Finite 0), Leaf (Finite 1000)]"
proof -
  have "shape0 checker_volume = 2" "shape1 checker_volume = 2" "shape2 checker_volume = 2"
    by (simp_all add: checker_volume_def)
  then show ?thesis
    by (simp add: root_node_def OctreeNode.simps Let_def checker_not_small checker_children)
       (simp add: checker_vals)
qed

theorem round_trip_counts_witness:
  "octree_file np_mean_exact f4_examples checker_volume
     = Inr (le32 2 @ le32 2 @ le32 2 @ save f4_examples (root_node np_mean_exact checker_volume))
   \<and> (\<exists>s. count_octree_points
              (le32 2 @ le32 2 @ le32 2 @ save f4_examples (root_node np_mean_exact checker_volume))
            = Statistics s
          \<and> total_nodes s = 9 \<and> leaf_nodes s = 8 \<and> internal_count s = 1)"
proof -
  have h: "octree_file np_mean_exact f4_examples checker_volume
     = Inr (le32 2 @ le32 2 @ le32 2 @ save f4_examples (root_node np_mean_exact checker_volume))"
    by (simp add: octree_file_def write_octree_def u4_tobytes_def checker_volume_def)
  have counts: "count_nodes (root_node np_mean_exact checker_volume) = 9"
    "count_leaves (root_node np_mean_exact checker_volume) = 8"
    "count_internals (root_node np_mean_exact checker_volume) = 1"
    by (simp_all add: checker_root)
  show ?thesis
    using h round_trip_counts [OF h] unfolding counts by (rule conjI)
qed

section \<open>Uniform volumes\<close>

lemma py_slice_in_range: "i \<in> set (py_slice n a b) \<Longrightarrow> i < n"
  by (auto simp: py_slice_def slice_bound_def split: if_splits)

lemma py_slice_whole: "py_slice n 0 (int n) = [0 ..< n]"
  by (simp add: py_slice_def slice_bound_def)

lemma sub_data_samples:
  assumes "w \<in> set (sub_data data c s)"
  shows "\<exists>z < shape0 data. \<exists>y < shape1 data. \<exists>x < shape2 data. w = sample data z y x"
proof -
  obtain minx miny minz sx sy sz where c: "c = (minx, miny, minz)" and s: "s = (sx, sy, sz)"
    by (cases c, cases s) auto
  show ?thesis
    using assms unfolding c s sub_data.simps
    by (auto dest!: py_slice_in_range)
qed

lemma sub_data_whole_length:
  "length (sub_data data (0, 0, 0) (int (shape2 data), int (shape1 data), int (shape0 data)))
     = shape0 data * shape1 data * shape2 data"
  by (simp add: sub_data.simps py_slice_whole length_concat o_def sum_list_triv)

lemma uniform_list:
  assumes "\<forall>w \<in> set vals. w = Finite v" and "vals \<noteq> []"
  shows "fluctuation_le_50 vals" and "hd vals = Finite v"
    and "vals = replicate (length vals) (Finite v)"
proof -
  have set_eq: "set vals = {Finite v}" using assms by (cases vals) auto
  have "list_all is_finite vals" using assms(1) by (auto simp: list_all_iff)
  then show "fluctuation_le_50 vals" by (simp add: fluctuation_le_50_def set_eq)
  show "hd vals = Finite v" using assms by (cases vals) auto
  show "vals = replicate (length vals) (Finite v)"
    using assms(1) by (induction vals) auto
qed

lemma le_value_le32:
  assumes "n < 2 ^ 32"
  shows "le_value (le32 n) = n"
proof -
  have d2: "n div 65536 = n div 256 div 256" and d3: "n div 16777216 = n div 256 div 256 div 256"
    by (simp_all add: div_mult2_eq [symmetric])
  have top: "n div 256 div 256 div 256 < 256"
    using assms by (simp add: div_mult2_eq [symmetric])
  have step: "x mod 256 + 256 * (x div 256) = x" for x :: nat
    by simp
  have "le_value (le32 n) = n mod 256 + 256 * (n div 256 mod 256 + 256 * (n div 256 div 256 mod 256
      + 256 * (n div 256 div 256 div 256 mod 256)))"
    by (simp add: le_value_def le32_def unat_of_nat d2 d3)
  also have "\<dots> = n"
    using top by (simp add: step)
  finally show ?thesis .
qed


lemma uniform_root:
  assumes uni: "\<forall>z < shape0 data. \<forall>y < shape1 data. \<forall>x < shape2 data.
      sample data z y x = Finite v"
    and pos: "0 < shape0 data" "0 < shape1 data" "0 < shape2 data"
  shows "root_node np_mean data =
     Leaf (if shape0 data = 1 \<and> shape1 data = 1 \<and> shape2 data = 1 then Finite v
           else np_mean (replicate (shape0 data * shape1 data * shape2 data) (Finite v)))"
proof -
  let ?s = "(int (shape2 data), int (shape1 data), int (shape0 data))"
  let ?vals = "sub_data data (0, 0, 0) ?s"
  have len: "length ?vals = shape0 data * shape1 data * shape2 data"
    by (rule sub_data_whole_length)
  then have "length ?vals \<noteq> 0" using pos by simp
  then have ne: "?vals \<noteq> []" by auto
  have all: "\<forall>w \<in> set ?vals. w = Finite v"
    using uni by (auto dest!: sub_data_samples)
  note u = uniform_list [OF all ne]
  have rep: "?vals = replicate (shape0 data * shape1 data * shape2 data) (Finite v)"
    using u(3) len by simp
  have one: "(int (shape2 data) \<le> 1 \<and> int (shape1 data) \<le> 1 \<and> int (shape0 data) \<le> 1)
      \<longleftrightarrow> (shape0 data = 1 \<and> shape1 data = 1 \<and> shape2 data = 1)"
    using pos by auto
  show ?thesis
  proof (cases "shape0 data = 1 \<and> shape1 data = 1 \<and> shape2 data = 1")
    case True
    then have small: "int (shape2 data) \<le> 1 \<and> int (shape1 data) \<le> 1 \<and> int (shape0 data) \<le> 1"
      by simp
    have "OctreeNode np_mean (0, 0, 0) ?s data = Leaf (hd ?vals)"
      using small ne by (subst OctreeNode.simps) (simp add: Let_def)
    then show ?thesis
      unfolding root_node_def using True u(2) by simp
  next
    case False
    with one have big: "\<not> (int (shape2 data) \<le> 1 \<and> int (shape1 data) \<le> 1 \<and> int (shape0 data) \<le> 1)"
      by simp
    have "OctreeNode np_mean (0, 0, 0) ?s data = Leaf (np_mean ?vals)"
      using big ne u(1) by (subst OctreeNode.simps) (auto simp: Let_def)
    then have "OctreeNode np_mean (0, 0, 0) ?s data
        = Leaf (np_mean (replicate (shape0 data * shape1 data * shape2 data) (Finite v)))"
      using rep by simp
    then show ?thesis
      unfolding root_node_def using False by auto
  qed
qed

text \<open>The 4 x 4 x 4 volume whose samples are all 7.0.\<close>

definition uniform_volume :: volume where
  "uniform_volume = \<lparr>shape0 = 4, shape1 = 4, shape2 = 4, sample = (\<lambda>z y x. Finite 7)\<rparr>"

text \<open>
  Claim C7, as amended (uniform volume).  For a volume of any positive dimensions whose
  samples all have the same finite value \<open>v\<close>, the block-value builder makes a single leaf.
  Its value is \<open>v\<close> when the volume is a single sample and otherwise what \<open>np.mean\<close> returns
  for the \<open>nx * ny * nz\<close> samples, which is \<open>v\<close> only where the float32 sums and the quotient
  do not round.  The file written is the 12-byte header followed by the tag byte 0 and the 4
  bytes of that value as a little-endian float; the fast mode reports 1 node, 1 leaf, no
  internal node and the compression ratio \<open>nx * ny * nz\<close>.  For the 4 x 4 x 4 volume of
  7.0 the mean is 7.0 and the ratio is 64.
\<close>

theorem uniform_volume_single_leaf:
  fixes data :: volume and v :: real and np_mean :: "f32 list \<Rightarrow> f32"
  defines "w \<equiv> (if shape0 data = 1 \<and> shape1 data = 1 \<and> shape2 data = 1 then Finite v
                 else np_mean (replicate (shape0 data * shape1 data * shape2 data) (Finite v)))"
  assumes "\<forall>z < shape0 data. \<forall>y < shape1 data. \<forall>x < shape2 data. sample data z y x = Finite v"
    and "0 < shape0 data" and "0 < shape1 data" and "0 < shape2 data"
    and "octree_file np_mean f4 data = Inr file"
  shows "root_node np_mean data = Leaf w
    \<and> file = le32 (shape2 data) @ le32 (shape1 data) @ le32 (shape0 data) @ 0 # f4_tobytes f4 w
    \<and> length file = 17
    \<and> count_octree_points file =
        Statistics \<lparr>total_voxels = shape2 data * shape1 data * shape0 data,
          total_nodes = 1, leaf_nodes = 1, internal_count = 0,
          compression_ratio = Inr (real (shape2 data * shape1 data * shape0 data)),
          memory_saving =
            Inr ((1 - 1 / real (shape2 data * shape1 data * shape0 data)) * 100)\<rparr>"
proof -
  have root: "root_node np_mean data = Leaf w"
    unfolding w_def by (rule uniform_root [OF assms(2-5)])
  obtain header where h: "u4_tobytes [shape2 data, shape1 data, shape0 data] = Inr header"
    and file_eq: "file = header @ save f4 (root_node np_mean data)"
    using assms(6) by (auto simp: octree_file_def write_octree_def split: sum.splits)
  note hd = u4_tobytes_header [OF h]
  have file': "file = le32 (shape2 data) @ le32 (shape1 data) @ le32 (shape0 data)
      @ 0 # f4_tobytes f4 w"
    using hd file_eq root by simp
  have parse: "parse_node (0 # f4_tobytes f4 w) \<lparr>total_points = 0, leaf_points = 0, internal_nodes = 0\<rparr>
      = (True, [], \<lparr>total_points = 1, leaf_points = 1, internal_nodes = 0\<rparr>)"
    using parse_node_leaf [of "f4_tobytes f4 w" "[]"] by simp
  have "count_octree_points file =
        Statistics \<lparr>total_voxels = shape2 data * shape1 data * shape0 data,
          total_nodes = 1, leaf_nodes = 1, internal_count = 0,
          compression_ratio = Inr (real (shape2 data * shape1 data * shape0 data)),
          memory_saving =
            Inr ((1 - 1 / real (shape2 data * shape1 data * shape0 data)) * 100)\<rparr>"
    unfolding file' using hd assms(3-5)
    by (simp add: count_octree_points_def Let_def parse le_value_le32 truediv_def)
  with root file' show ?thesis by simp
qed

theorem uniform_volume_single_leaf_witness:
  "sample uniform_volume 0 0 0 = Finite 7
   \<and> 0 < shape0 uniform_volume \<and> 0 < shape1 uniform_volume \<and> 0 < shape2 uniform_volume
   \<and> np_mean_exact (replicate 64 (Finite 7)) = Finite 7
   \<and> root_node np_mean_exact uniform_volume = Leaf (Finite 7)
   \<and> octree_file np_mean_exact f4_examples uniform_volume
        = Inr ([4, 0, 0, 0, 4, 0, 0, 0, 4, 0, 0, 0] @ [0] @ [0, 0, 0xE0, 0x40])
   \<and> count_octree_points ([4, 0, 0, 0, 4, 0, 0, 0, 4, 0, 0, 0] @ [0] @ [0, 0, 0xE0, 0x40]) =
        Statistics \<lparr>total_voxels = 64, total_nodes = 1, leaf_nodes = 1, internal_count = 0,
          compression_ratio = Inr 64, memory_saving = Inr ((1 - 1 / 64) * 100)\<rparr>"
proof -
  have u: "\<forall>z < shape0 uniform_volume. \<forall>y < shape1 uniform_volume. \<forall>x < shape2 uniform_volume.
      sample uniform_volume z y x = Finite 7"
    and p: "0 < shape0 uniform_volume" "0 < shape1 uniform_volume" "0 < shape2 uniform_volume"
    and s: "shape0 uniform_volume = 4" "shape1 uniform_volume = 4" "shape2 uniform_volume = 4"
    by (simp_all add: uniform_volume_def)
  have m: "np_mean_exact (replicate 64 (Finite 7)) = Finite 7"
    by (simp add: np_mean_exact_def list_all_iff sum_list_replicate)
  have r: "root_node np_mean_exact uniform_volume = Leaf (Finite 7)"
    using uniform_root [OF u p, of np_mean_exact] by (simp add: s m)
  have bytes: "le32 4 = [4, 0, 0, 0]" "f4_tobytes f4_examples (Finite 7) = [0, 0, 0xE0, 0x40]"
    by (simp_all add: le32_def f4_tobytes_def f4_examples_def)
  have f: "octree_file np_mean_exact f4_examples uniform_volume
        = Inr ([4, 0, 0, 0, 4, 0, 0, 0, 4, 0, 0, 0] @ [0] @ [0, 0, 0xE0, 0x40])"
    by (simp add: octree_file_def write_octree_def u4_tobytes_def r s bytes)
  show ?thesis
    using u p f m r uniform_volume_single_leaf [OF u p f]
    by (simp add: s bytes)
qed

text \<open>The 2 x 2 x 2 volume whose samples are all plus infinity, a float32 value.\<close>

definition inf_volume :: volume where
  "inf_volume = \<lparr>shape0 = 2, shape1 = 2, shape2 = 2, sample = (\<lambda>z y x. PosInf)\<rparr>"

text \<open>
  Claim C7 as stated fails at that volume: the difference of the maximum and the minimum is
  infinity minus infinity, a NaN, which is not at most 50.  The root is an internal node with
  8 leaves, and the fast mode reports 9 nodes.
\<close>

theorem uniform_volume_counterexample:
  "sub_data inf_volume (0, 0, 0) (2, 2, 2) = replicate 8 PosInf
   \<and> root_node np_mean_exact inf_volume
        = Internal [Leaf PosInf, Leaf PosInf, Leaf PosInf, Leaf PosInf,
                    Leaf PosInf, Leaf PosInf, Leaf PosInf, Leaf PosInf]
   \<and> \<not> is_leaf (root_node np_mean_exact inf_volume)
   \<and> octree_file np_mean_exact f4_examples inf_volume
        = Inr ([2, 0, 0, 0, 2, 0, 0, 0, 2, 0, 0, 0] @ save f4_examples (root_node np_mean_exact inf_volume))
   \<and> count_octree_points
        ([2, 0, 0, 0, 2, 0, 0, 0, 2, 0, 0, 0] @ save f4_examples (root_node np_mean_exact inf_volume))
        = Statistics \<lparr>total_voxels = 8, total_nodes = 9, leaf_nodes = 8, internal_count = 1,
            compression_ratio = Inr (8 / 9), memory_saving = Inr ((1 - 9 / 8) * 100)\<rparr>"
proof -
  have s: "shape0 inf_volume = 2" "shape1 inf_volume = 2" "shape2 inf_volume = 2"
    by (simp_all add: inf_volume_def)
  have vals: "sub_data inf_volume (0, 0, 0) (2, 2, 2) = replicate 8 PosInf"
    by (simp add: sub_data.simps py_slice_def slice_bound_def inf_volume_def upt_rec
        numeral_eq_Suc)
  have nf: "\<not> fluctuation_le_50 (replicate 8 PosInf)"
    by (simp add: fluctuation_le_50_def list_all_iff)
  have children: "map (\<lambda>(c, s). OctreeNode np_mean_exact c s inf_volume)
        (block_children (0, 0, 0) (2, 2, 2))
      = [Leaf PosInf, Leaf PosInf, Leaf PosInf, Leaf PosInf,
         Leaf PosInf, Leaf PosInf, Leaf PosInf, Leaf PosInf]"
    by (simp add: block_children_list OctreeNode.simps sub_data.simps py_slice_def
        slice_bound_def inf_volume_def upt_rec)
  have root: "root_node np_mean_exact inf_volume
        = Internal [Leaf PosInf, Leaf PosInf, Leaf PosInf, Leaf PosInf,
                    Leaf PosInf, Leaf PosInf, Leaf PosInf, Leaf PosInf]"
    by (simp add: root_node_def s OctreeNode.simps Let_def vals nf children)
  have bytes: "le32 2 = [2, 0, 0, 0]"
    by (simp add: le32_def)
  have file_eq: "octree_file np_mean_exact f4_examples inf_volume
        = Inr ([2, 0, 0, 0, 2, 0, 0, 0, 2, 0, 0, 0] @ save f4_examples (root_node np_mean_exact inf_volume))"
    by (simp add: octree_file_def write_octree_def u4_tobytes_def s bytes)
  have wf: "well_formed (root_node np_mean_exact inf_volume)"
    by (simp add: root_node_def OctreeNode_well_formed)
  have parse: "parse_node (save f4_examples (root_node np_mean_exact inf_volume))
        \<lparr>total_points = 0, leaf_points = 0, internal_nodes = 0\<rparr>
      = (True, [], \<lparr>total_points = 9, leaf_points = 8, internal_nodes = 1\<rparr>)"
    using parse_node_saved [OF wf, of f4_examples "[]"
        "\<lparr>total_points = 0, leaf_points = 0, internal_nodes = 0\<rparr>"]
    by (simp add: add_counts_def root)
  have count: "count_octree_points
        ([2, 0, 0, 0, 2, 0, 0, 0, 2, 0, 0, 0] @ save f4_examples (root_node np_mean_exact inf_volume))
        = Statistics \<lparr>total_voxels = 8, total_nodes = 9, leaf_nodes = 8, internal_count = 1,
            compression_ratio = Inr (8 / 9), memory_saving = Inr ((1 - 9 / 8) * 100)\<rparr>"
    by (simp add: count_octree_points_def Let_def parse le_value_def truediv_def)
  from vals root file_eq count show ?thesis by simp
qed

section \<open>The two \<open>main\<close> functions\<close>

text \<open>
  Neither \<open>main\<close> takes a parameter: the dimensions and the threshold are constants.  A
  file \<open>saltf\<close> of any other size than \<open>210 * 676 * 676\<close> values makes \<open>reshape\<close> raise
  ValueError, before a node is built or the output file is opened; otherwise the header is
  that of the constants, and the depth cap of the point-sample builder is 8.
\<close>

lemma generate_octree_main_reshape:
  "length saltf \<noteq> 210 * 676 * 676 \<Longrightarrow> generate_octree_main np_mean f4 saltf = Inl ValueError"
  by (simp add: generate_octree_main_def)

lemma generate_octree_main_file:
  assumes "length saltf = 210 * 676 * 676"
  shows "generate_octree_main np_mean f4 saltf
     = Inr (le32 676 @ le32 676 @ le32 210 @ save f4 (root_node np_mean (reshape_saltf saltf)))"
  using assms
  by (simp add: generate_octree_main_def octree_file_def write_octree_def u4_tobytes_def
      reshape_saltf_def)

lemma floorlog_210: "floorlog 2 210 = 8"
  by (simp add: compute_floorlog)

lemma main_max_depth_reshape: "main_max_depth (reshape_saltf saltf) = Inr 8"
  by (simp add: main_max_depth_def reshape_saltf_def floorlog_210)

lemma generate_point_octree_main_reshape:
  "length saltf \<noteq> 210 * 676 * 676 \<Longrightarrow>
   generate_point_octree_main np_mean f4 saltf = Inl ValueError"
  by (simp add: generate_point_octree_main_def)

lemma generate_point_octree_main_file:
  assumes "length saltf = 210 * 676 * 676"
  shows "generate_point_octree_main np_mean f4 saltf
     = Inr (le32 676 @ le32 676 @ le32 210
            @ point_save f4 (point_root_node np_mean (reshape_saltf saltf) 8))"
  using assms
  by (simp add: generate_point_octree_main_def point_octree_file_def main_max_depth_reshape
      u4_tobytes_def) (simp add: reshape_saltf_def)

section \<open>Truncated files\<close>

text \<open>
  The fast mode detects every truncation of a file the block-value builder wrote: cut
  anywhere after the header, the file cannot be parsed.
\<close>

lemma parse_node_Nil: "parse_node [] c = (False, [], c)"
  by (simp add: parse_node.simps)

lemma parse_children_truncated:
  assumes each: "\<And>t n c. t \<in> set ts \<Longrightarrow> n < length (save f4 t) \<Longrightarrow>
      \<not> fst (parse_node (take n (save f4 t)) c)"
    and wf: "list_all well_formed ts"
    and short: "n < length (concat (map (save f4) ts))"
  shows "\<not> fst (parse_children (length ts) (take n (concat (map (save f4) ts))) c)"
  using assms
proof (induction ts arbitrary: n c)
  case Nil
  then show ?case by simp
next
  case (Cons t ts)
  show ?case
  proof (cases "n < length (save f4 t)")
    case True
    then have "\<not> fst (parse_node (take n (save f4 t)) c)"
      using Cons.prems(1) by simp
    with True show ?thesis by (auto split: prod.splits)
  next
    case False
    let ?m = "n - length (save f4 t)"
    have take_eq: "take n (concat (map (save f4) (t # ts)))
        = save f4 t @ take ?m (concat (map (save f4) ts))"
      using False by simp
    have wf_t: "well_formed t" using Cons.prems(2) by simp
    have m: "?m < length (concat (map (save f4) ts))"
      using False Cons.prems(3) by simp
    have "\<not> fst (parse_children (length ts) (take ?m (concat (map (save f4) ts))) c')" for c'
      using Cons.IH [OF _ _ m] Cons.prems(1,2) by simp
    then show ?thesis
      unfolding take_eq by (simp add: parse_node_saved [OF wf_t])
  qed
qed

lemma parse_node_truncated:
  "well_formed t \<Longrightarrow> n < length (save f4 t) \<Longrightarrow> \<not> fst (parse_node (take n (save f4 t)) c)"
proof (induction t arbitrary: n c)
  case (Leaf v)
  show ?case
  proof (cases n)
    case 0
    then show ?thesis by (simp add: parse_node_Nil)
  next
    case (Suc m)
    with Leaf.prems show ?thesis by (simp add: parse_node.simps)
  qed
next
  case (Internal children)
  show ?case
  proof (cases n)
    case 0
    then show ?thesis by (simp add: parse_node_Nil)
  next
    case (Suc m)
    have len: "length children = 8" and wf: "list_all well_formed children"
      using Internal.prems(1) by simp_all
    have m: "m < length (concat (map (save f4) children))"
      using Internal.prems(2) Suc by simp
    have each: "\<not> fst (parse_node (take n (save f4 t)) c)"
      if "t \<in> set children" "n < length (save f4 t)" for t n c
      using Internal.IH [OF that(1) _ that(2)] wf that(1) by (simp add: list_all_iff)
    have "\<not> fst (parse_children (length children)
        (take m (concat (map (save f4) children))) c')" for c'
      by (rule parse_children_truncated [OF each wf m])
    then show ?thesis
      using Suc len parse_node_internal [of 1] by simp
  qed
qed

lemma truncated_file_fast_mode:
  assumes "octree_file np_mean f4 data = Inr file" and "12 \<le> n" and "n < length file"
  shows "count_octree_points (take n file) = CannotParse"
proof -
  obtain header where h: "u4_tobytes [shape2 data, shape1 data, shape0 data] = Inr header"
    and file_eq: "file = header @ save f4 (root_node np_mean data)"
    using assms(1) by (auto simp: octree_file_def write_octree_def Let_def split: sum.splits)
  have len: "length header = 12"
    using u4_tobytes_header [OF h] by simp
  have wf: "well_formed (root_node np_mean data)"
    by (simp add: root_node_def OctreeNode_well_formed)
  have "n - 12 < length (save f4 (root_node np_mean data))"
    using assms(2,3) len file_eq by simp
  from parse_node_truncated [OF wf this]
  have "\<not> fst (parse_node (take (n - 12) (save f4 (root_node np_mean data))) c)" for c .
  then have "fst (parse_node (take (n - 12) (save f4 (root_node np_mean data)))
      \<lparr>total_points = 0, leaf_points = 0, internal_nodes = 0\<rparr>) = False"
    by simp
  then show ?thesis
    using len assms(2)
    by (auto simp: count_octree_points_def file_eq Let_def split: prod.splits)
qed

lemma parse_children_numeral:
  "parse_children (numeral k) f c =
     (case parse_node f c of
        (ok, f', c') \<Rightarrow> if \<not> ok then (False, f', c') else parse_children (pred_numeral k) f' c')"
  by (simp add: numeral_eq_Suc)

text \<open>
  Two truncated files.  The first is the file written for the 1 x 1 x 1 volume of 7.0 without
  its last byte: the payload of its only leaf is one byte short.  The second is the header
  of a 2 x 2 x 2 volume, an internal tag and only 7 leaves of value 7.0: the tag byte of the eighth
  child is missing.
\<close>

definition truncated_file :: "byte list" where
  "truncated_file = [1, 0, 0, 0, 1, 0, 0, 0, 1, 0, 0, 0, 0, 0, 0, 0xE0]"

definition missing_tag_file :: "byte list" where
  "missing_tag_file =
     [2, 0, 0, 0, 2, 0, 0, 0, 2, 0, 0, 0,
      1,
      0, 0, 0, 0xE0, 0x40, 0, 0, 0, 0xE0, 0x40, 0, 0, 0, 0xE0, 0x40, 0, 0, 0, 0xE0, 0x40,
      0, 0, 0, 0xE0, 0x40, 0, 0, 0, 0xE0, 0x40, 0, 0, 0, 0xE0, 0x40]"

lemma missing_tag_fast: "count_octree_points missing_tag_file = CannotParse"
  by (simp add: missing_tag_file_def count_octree_points_def parse_node.simps
       parse_children_numeral Let_def)

lemma missing_tag_detailed:
  "detailed_octree_analysis missing_tag_file =
     DetailedStatistics \<lparr>voxels_counted = 7, leaves_counted = 7, internals_counted = 1,
       ratio = 1, voxels_per_leaf = 8 / 7,
       levels = [(0, \<lparr>leaves = 0, internals = 1, voxels = 0\<rparr>),
                 (1, \<lparr>leaves = 7, internals = 0, voxels = 7\<rparr>)],
       mismatch_warning = True\<rparr>"
  by (simp add: missing_tag_file_def
      detailed_octree_analysis_def parse_node_detailed.simps le_value_def truediv_def
      enter_level_def Let_def child_sizes.simps)

text \<open>
  Claim C5 (truncation detection), at those files.  The fast mode reports that the tree
  cannot be parsed.  The detailed mode does not check what \<open>f.read(4)\<close> returns and
  answers a missing tag byte with the counts (0, 0, 0): for the short payload it reports
  complete statistics (one leaf covering the one voxel) and no warning; for the missing tag
  it reports statistics of the 8 nodes it found, with the voxel-count warning only.
\<close>

theorem truncated_leaf_payload:
  "truncated_file = butlast ([1, 0, 0, 0, 1, 0, 0, 0, 1, 0, 0, 0] @ save f4_examples (Leaf (Finite 7)))
   \<and> count_octree_points truncated_file = CannotParse
   \<and> detailed_octree_analysis truncated_file =
       DetailedStatistics \<lparr>voxels_counted = 1, leaves_counted = 1, internals_counted = 0,
         ratio = 1, voxels_per_leaf = 1,
         levels = [(0, \<lparr>leaves = 1, internals = 0, voxels = 1\<rparr>)],
         mismatch_warning = False\<rparr>
   \<and> count_octree_points missing_tag_file = CannotParse
   \<and> detailed_octree_analysis missing_tag_file =
       DetailedStatistics \<lparr>voxels_counted = 7, leaves_counted = 7, internals_counted = 1,
         ratio = 1, voxels_per_leaf = 8 / 7,
         levels = [(0, \<lparr>leaves = 0, internals = 1, voxels = 0\<rparr>),
                   (1, \<lparr>leaves = 7, internals = 0, voxels = 7\<rparr>)],
         mismatch_warning = True\<rparr>"
proof -
  have "truncated_file = butlast ([1, 0, 0, 0, 1, 0, 0, 0, 1, 0, 0, 0] @ save f4_examples (Leaf (Finite 7)))"
    by (simp add: truncated_file_def f4_tobytes_def f4_examples_def le32_def)
  moreover have "count_octree_points truncated_file = CannotParse"
    by (simp add: truncated_file_def count_octree_points_def parse_node.simps Let_def)
  moreover have "detailed_octree_analysis truncated_file =
       DetailedStatistics \<lparr>voxels_counted = 1, leaves_counted = 1, internals_counted = 0,
         ratio = 1, voxels_per_leaf = 1,
         levels = [(0, \<lparr>leaves = 1, internals = 0, voxels = 1\<rparr>)],
         mismatch_warning = False\<rparr>"
    by (simp add: truncated_file_def detailed_octree_analysis_def parse_node_detailed.simps
        le_value_def truediv_def enter_level_def Let_def)
  ultimately show ?thesis
    using missing_tag_fast missing_tag_detailed by simp
qed

section \<open>The value of a point-sample leaf\<close>

text \<open>The 1 x 1 x 1 volume whose sample is 5.0.\<close>

definition unit_volume :: volume where
  "unit_volume = \<lparr>shape0 = 1, shape1 = 1, shape2 = 1, sample = (\<lambda>z y x. Finite 5)\<rparr>"

text \<open>The leaves of a tree, as \<open>get_leaf_points\<close> collects them: value and position.\<close>

fun point_leaves :: "pnode \<Rightarrow> (f32 \<times> coord) list" where
  "point_leaves (PLeaf v position) = [(v, position)]"
| "point_leaves (PInternal children) = concat (map point_leaves children)"

text \<open>A region of positive sizes that lies within the volume.\<close>

fun inside :: "volume \<Rightarrow> coord \<times> coord \<Rightarrow> bool" where
  "inside data ((minx, miny, minz), (sx, sy, sz)) =
     (0 \<le> minx \<and> 1 \<le> sx \<and> minx + sx \<le> int (shape2 data)
      \<and> 0 \<le> miny \<and> 1 \<le> sy \<and> miny + sy \<le> int (shape1 data)
      \<and> 0 \<le> minz \<and> 1 \<le> sz \<and> minz + sz \<le> int (shape0 data))"

lemma empty_slice_center:
  assumes "0 \<le> a" and "2 \<le> s" and "py_slice n a (a + s) = []"
  shows "\<not> a + s div 2 < int n"
  using assms by (auto simp: py_slice_def slice_bound_def split: if_splits)

lemma sub_data_empty_slice:
  assumes "sub_data data (minx, miny, minz) (sx, sy, sz) = []"
  shows "py_slice (shape2 data) minx (minx + sx) = []
       \<or> py_slice (shape1 data) miny (miny + sy) = []
       \<or> py_slice (shape0 data) minz (minz + sz) = []"
proof (rule ccontr)
  assume "\<not> ?thesis"
  then obtain x y z where "x \<in> set (py_slice (shape2 data) minx (minx + sx))"
    "y \<in> set (py_slice (shape1 data) miny (miny + sy))"
    "z \<in> set (py_slice (shape0 data) minz (minz + sz))"
    by (meson all_not_in_conv set_empty)
  then have "sample data z y x \<in> set (sub_data data (minx, miny, minz) (sx, sy, sz))"
    by (auto simp: sub_data.simps)
  with assms show False by simp
qed

lemma empty_region_center:
  assumes "0 \<le> minx" "0 \<le> miny" "0 \<le> minz" and "\<not> min sx (min sy sz) \<le> 1"
    and "sub_data data (minx, miny, minz) (sx, sy, sz) = []"
  shows "\<not> in_bounds data (center (minx, miny, minz) (sx, sy, sz))"
  using sub_data_empty_slice [OF assms(5)] assms(1-4)
    empty_slice_center [of minx sx "shape2 data"]
    empty_slice_center [of miny sy "shape1 data"]
    empty_slice_center [of minz sz "shape0 data"]
  by (auto simp: min_def split: if_splits)

lemma point_leaf_cases:
  fixes data :: volume and minx miny minz sx sy sz max_depth current_depth :: int
  defines "vals \<equiv> sub_data data (minx, miny, minz) (sx, sy, sz)"
  assumes "0 \<le> minx" and "0 \<le> miny" and "0 \<le> minz"
    and leaf: "PointOctreeNode np_mean (minx, miny, minz) (sx, sy, sz) data max_depth current_depth
            = PLeaf v position"
  shows "position = center (minx, miny, minz) (sx, sy, sz)
    \<and> (in_bounds data position \<longrightarrow> v = sample_at data position)
    \<and> (\<not> in_bounds data position \<longrightarrow>
          v = (if current_depth \<ge> max_depth \<or> min sx (min sy sz) \<le> 1 then Finite 0
               else if vals = [] then Finite 0 else np_mean vals))"
proof -
  let ?c = "center (minx, miny, minz) (sx, sy, sz)"
  let ?fallback = "if in_bounds data ?c then sample_at data ?c else if vals \<noteq> [] then np_mean vals else Finite 0"
  note eq = leaf [unfolded PointOctreeNode.simps [of np_mean minx miny minz sx sy sz data max_depth
        current_depth] Let_def, folded vals_def]
  show ?thesis
  proof (cases "current_depth \<ge> max_depth \<or> min sx (min sy sz) \<le> 1")
    case True
    with eq have "position = ?c" and "v = (if in_bounds data ?c then sample_at data ?c else Finite 0)"
      by (auto simp del: center.simps in_bounds.simps sample_at.simps)
    with True show ?thesis
      by (simp del: center.simps in_bounds.simps sample_at.simps)
  next
    case False
    with eq have eq2: "(if vals = [] then PLeaf (Finite 0) ?c
        else if fluctuation_le_50 vals then PLeaf ?fallback ?c
        else if min sx (min sy sz) < 2 then PLeaf ?fallback ?c
        else PInternal (map (\<lambda>(c, s). PointOctreeNode np_mean c s data max_depth (current_depth + 1))
                         (point_children (minx, miny, minz) (sx, sy, sz)))) = PLeaf v position"
      by (simp del: center.simps in_bounds.simps sample_at.simps)
    show ?thesis
    proof (cases "vals = []")
      case True
      with False assms(2-4) have out: "\<not> in_bounds data ?c"
        by (intro empty_region_center) (auto simp: vals_def)
      from eq2 True have "position = ?c" and "v = Finite 0"
        by (auto simp del: center.simps in_bounds.simps sample_at.simps)
      with out True False show ?thesis
        by (simp del: center.simps in_bounds.simps sample_at.simps)
    next
      case ne: False
      from eq2 ne have "PLeaf ?fallback ?c = PLeaf v position"
        by (auto simp del: center.simps in_bounds.simps sample_at.simps split: if_splits)
      with ne have "position = ?c"
        and "v = (if in_bounds data ?c then sample_at data ?c else np_mean vals)"
        by (auto simp del: center.simps in_bounds.simps sample_at.simps)
      with ne False show ?thesis
        by (simp del: center.simps in_bounds.simps sample_at.simps)
    qed
  qed
qed


lemma point_children_inside:
  assumes "inside data ((minx, miny, minz), (sx, sy, sz))" and "\<not> min sx (min sy sz) \<le> 1"
    and "(c, s) \<in> set (point_children (minx, miny, minz) (sx, sy, sz))"
  shows "inside data (c, s)"
  using assms unfolding point_children_list by auto

lemma inside_center:
  assumes "inside data ((minx, miny, minz), (sx, sy, sz))"
  shows "in_bounds data (center (minx, miny, minz) (sx, sy, sz))"
  using assms by auto

lemma point_leaves_inside:
  "inside data (c, s) \<Longrightarrow>
   \<forall>(v, p) \<in> set (point_leaves (PointOctreeNode np_mean c s data max_depth current_depth)).
      in_bounds data p \<and> v = sample_at data p"
proof (induction np_mean c s data max_depth current_depth rule: PointOctreeNode.induct)
  case (1 np_mean minx miny minz sx sy sz data max_depth current_depth)
  let ?t = "PointOctreeNode np_mean (minx, miny, minz) (sx, sy, sz) data max_depth current_depth"
  have nonneg: "0 \<le> minx" "0 \<le> miny" "0 \<le> minz" using "1.prems" by auto
  show ?case
  proof (cases ?t)
    case (PLeaf v position)
    from point_leaf_cases [OF nonneg PLeaf] inside_center [OF "1.prems"]
    have "in_bounds data position \<and> v = sample_at data position"
      by (auto simp del: center.simps in_bounds.simps sample_at.simps)
    with PLeaf show ?thesis by simp
  next
    case (PInternal children)
    let ?vals = "sub_data data (minx, miny, minz) (sx, sy, sz)"
    note eq = PInternal [unfolded PointOctreeNode.simps [of np_mean minx miny minz sx sy sz data max_depth
        current_depth] Let_def]
    have c1: "\<not> (current_depth \<ge> max_depth \<or> min sx (min sy sz) \<le> 1)"
      and c2: "?vals \<noteq> []" and c3: "\<not> fluctuation_le_50 ?vals"
      and c4: "\<not> min sx (min sy sz) < 2"
      using eq by (auto simp del: center.simps in_bounds.simps sample_at.simps split: if_splits)
    have children: "children = map (\<lambda>(c, s). PointOctreeNode np_mean c s data max_depth (current_depth + 1))
        (point_children (minx, miny, minz) (sx, sy, sz))"
      using eq c1 c2 c3 c4 by (simp del: center.simps in_bounds.simps sample_at.simps)
    have "\<forall>(v, p) \<in> set (point_leaves (PointOctreeNode np_mean c s data max_depth (current_depth + 1))).
            in_bounds data p \<and> v = sample_at data p"
      if "(c, s) \<in> set (point_children (minx, miny, minz) (sx, sy, sz))" for c s
    proof -
      have "inside data (c, s)"
        using point_children_inside [OF "1.prems" _ that] c1 by simp
      then show ?thesis
        using "1.IH" [OF refl c1 refl c2 c3 c4 that refl] by simp
    qed
    then show ?thesis
      unfolding PInternal children by (fastforce simp del: in_bounds.simps sample_at.simps)
  qed
qed


section \<open>Decoding a point-format stream\<close>

text \<open>
  The remaining \<open>n\<close> iterations of the loop \<open>for _ in range(8)\<close> of \<open>parse_node\<close>,
  entered with the result \<open>r\<close> of the call of the iteration before them.
\<close>

definition rest_of_loop ::
    "nat \<Rightarrow> bool \<times> byte list \<times> counters \<Rightarrow> bool \<times> byte list \<times> counters" where
  "rest_of_loop n r =
     (case r of (ok, f', c') \<Rightarrow> if \<not> ok then (False, f', c') else parse_children n f' c')"

text \<open>The counter updates of the leaf branch and of the internal branch.\<close>

definition count_leaf :: "counters \<Rightarrow> counters" where
  "count_leaf c = c\<lparr>leaf_points := leaf_points c + 1, total_points := total_points c + 1\<rparr>"

definition count_internal :: "counters \<Rightarrow> counters" where
  "count_internal c = c\<lparr>internal_nodes := internal_nodes c + 1, total_points := total_points c + 1\<rparr>"

text \<open>
  The first leaf a point tree's encoding contains: its depth, value and position; and the
  bytes that \<open>point_save\<close> writes after the record of that leaf.
\<close>

fun leftmost_leaf :: "pnode \<Rightarrow> (nat \<times> f32 \<times> coord) option" where
  "leftmost_leaf (PLeaf v position) = Some (0, v, position)"
| "leftmost_leaf (PInternal []) = None"
| "leftmost_leaf (PInternal (child # children)) =
     (case leftmost_leaf child of None \<Rightarrow> None | Some (k, v, position) \<Rightarrow> Some (Suc k, v, position))"

fun after_leftmost :: "(f32 \<Rightarrow> 32 word) \<Rightarrow> pnode \<Rightarrow> byte list" where
  "after_leftmost f4 (PLeaf v position) = []"
| "after_leftmost f4 (PInternal []) = []"
| "after_leftmost f4 (PInternal (child # children)) =
     after_leftmost f4 child @ concat (map (point_save f4) children)"

fun point_well_formed :: "pnode \<Rightarrow> bool" where
  "point_well_formed (PLeaf v position) = True"
| "point_well_formed (PInternal children) =
     (length children = 8 \<and> list_all point_well_formed children)"

lemma parse_children_Suc: "parse_children (Suc n) f c = rest_of_loop n (parse_node f c)"
  by (simp add: rest_of_loop_def split: prod.splits)

lemma length_coords_tobytes [simp]: "length (coords_tobytes f4 position) = 12"
  by (cases position) simp

lemma point_save_leftmost:
  "leftmost_leaf t = Some (k, v, position) \<Longrightarrow>
   point_save f4 t = replicate k 1 @ 0 # f4_tobytes f4 v @ coords_tobytes f4 position
                       @ after_leftmost f4 t"
proof (induction t arbitrary: k rule: leftmost_leaf.induct)
  case (1 v position)
  then show ?case by simp
next
  case 2
  then show ?case by simp
next
  case (3 child children)
  then show ?case by (auto split: option.splits)
qed

lemma parse_node_spine:
  "length value_data = 4 \<Longrightarrow>
   parse_node (replicate k 1 @ 0 # value_data @ f) c
     = (rest_of_loop 7 ^^ k) (True, f, count_leaf ((count_internal ^^ k) c))"
proof (induction k arbitrary: c)
  case 0
  then show ?case using parse_node_leaf [of value_data f c] by (simp add: count_leaf_def)
next
  case (Suc k)
  have "parse_node (replicate (Suc k) 1 @ 0 # value_data @ f) c
      = parse_children 8 (replicate k 1 @ 0 # value_data @ f) (count_internal c)"
    using parse_node_internal [of 1] by (simp add: count_internal_def)
  also have "\<dots> = rest_of_loop 7 (parse_node (replicate k 1 @ 0 # value_data @ f) (count_internal c))"
    using parse_children_Suc [of 7] by simp
  also have "\<dots> = rest_of_loop 7 ((rest_of_loop 7 ^^ k)
      (True, f, count_leaf ((count_internal ^^ k) (count_internal c))))"
    by (simp only: Suc.IH [OF Suc.prems])
  finally show ?case by (simp add: funpow_swap1)
qed

lemma parse_node_after_leftmost:
  assumes "leftmost_leaf t = Some (Suc k, v, position)"
  shows "parse_node (point_save f4 t @ f) c
     = (rest_of_loop 7 ^^ k) (rest_of_loop 6
         (parse_node (coords_tobytes f4 position @ after_leftmost f4 t @ f)
            (count_leaf ((count_internal ^^ Suc k) c))))"
proof -
  let ?X = "coords_tobytes f4 position @ after_leftmost f4 t @ f"
  let ?c = "count_leaf ((count_internal ^^ Suc k) c)"
  have "parse_node (point_save f4 t @ f) c
      = (rest_of_loop 7 ^^ Suc k) (True, ?X, ?c)"
    using parse_node_spine [of "f4_tobytes f4 v" "Suc k" ?X c]
    by (simp add: point_save_leftmost [OF assms])
  also have "\<dots> = (rest_of_loop 7 ^^ k) (rest_of_loop 7 (True, ?X, ?c))"
    by (simp only: funpow_Suc_right o_apply)
  also have "rest_of_loop 7 (True, ?X, ?c) = parse_children 7 ?X ?c"
    by (simp add: rest_of_loop_def)
  also have "\<dots> = rest_of_loop 6 (parse_node ?X ?c)"
    using parse_children_Suc [of 6] by simp
  finally show ?thesis .
qed


lemma PointOctreeNode_well_formed:
  "point_well_formed (PointOctreeNode np_mean c s data max_depth current_depth)"
proof (induction np_mean c s data max_depth current_depth rule: PointOctreeNode.induct)
  case (1 np_mean minx miny minz sx sy sz data max_depth current_depth)
  let ?vals = "sub_data data (minx, miny, minz) (sx, sy, sz)"
  show ?case
  proof (cases "(current_depth \<ge> max_depth \<or> min sx (min sy sz) \<le> 1) \<or> ?vals = []
      \<or> fluctuation_le_50 ?vals \<or> min sx (min sy sz) < 2")
    case True
    then show ?thesis by (auto simp: PointOctreeNode.simps Let_def)
  next
    case False
    have "point_well_formed (PointOctreeNode np_mean c s data max_depth (current_depth + 1))"
      if "(c, s) \<in> set (point_children (minx, miny, minz) (sx, sy, sz))" for c s
      using "1.IH" [OF refl _ refl _ _ _ that refl] False by auto
    moreover have "length (point_children (minx, miny, minz) (sx, sy, sz)) = 8"
      by (simp add: point_children_list)
    ultimately show ?thesis
      using False by (auto simp: PointOctreeNode.simps Let_def list_all_iff)
  qed
qed

lemma well_formed_leftmost:
  "point_well_formed t \<Longrightarrow> \<exists>k v position. leftmost_leaf t = Some (k, v, position)"
proof (induction t rule: leftmost_leaf.induct)
  case (1 v position)
  have "leftmost_leaf (PLeaf v position) = Some (0, v, position)" by simp
  then show ?case by blast
next
  case 2
  then show ?case by simp
next
  case (3 child children)
  then have "point_well_formed child" by simp
  with 3 obtain k v position where "leftmost_leaf child = Some (k, v, position)" by blast
  then have "leftmost_leaf (PInternal (child # children)) = Some (Suc k, v, position)" by simp
  then show ?case by blast
qed

lemma internal_leftmost:
  assumes "point_well_formed (PInternal children)"
  shows "\<exists>k v position. leftmost_leaf (PInternal children) = Some (Suc k, v, position)"
proof -
  obtain child rest where c: "children = child # rest"
    using assms by (cases children) auto
  from well_formed_leftmost [of child] assms c show ?thesis by auto
qed

lemma parse_node_detailed_leaf:
  "length value_data = 4 \<Longrightarrow>
   parse_node_detailed s level (0 # value_data @ f) level_stats =
     ((voxel_count s, 1, 0), f,
      AList.map_entry level (\<lambda>st. st\<lparr>leaves := leaves st + 1, voxels := voxels st + voxel_count s\<rparr>)
        (enter_level level level_stats))"
  by (cases s) (simp add: parse_node_detailed.simps Let_def)

text \<open>
  Claim C10, as amended (width of the leaf payload).  Neither decoder mode has a setting for
  the payload width: given the 17-byte record of a point leaf, each mode consumes the tag and
  4 bytes and leaves the 12 coordinate bytes as the input of whatever it reads next.  For
  the stream of every tree of the point-sample builder whose root is internal, the fast mode,
  after the leftmost leaf, makes its next call of \<open>parse_node\<close>, which starts by reading a
  node tag, on the input that begins with the coordinates of that leaf.
\<close>

theorem leaf_payload_width:
  assumes "PointOctreeNode np_mean region_min region_size data max_depth current_depth = PInternal children"
  shows "parse_node (point_save f4 (PLeaf v position) @ f) c
          = (True, coords_tobytes f4 position @ f, count_leaf c)
    \<and> parse_node_detailed s level (point_save f4 (PLeaf v position) @ f) level_stats
          = ((voxel_count s, 1, 0), coords_tobytes f4 position @ f,
             AList.map_entry level
               (\<lambda>st. st\<lparr>leaves := leaves st + 1, voxels := voxels st + voxel_count s\<rparr>)
               (enter_level level level_stats))
    \<and> length (coords_tobytes f4 position) = 12
    \<and> (\<exists>k w p. leftmost_leaf (PInternal children) = Some (Suc k, w, p)
          \<and> parse_node (point_save f4 (PInternal children) @ f) c
              = (rest_of_loop 7 ^^ k) (rest_of_loop 6
                  (parse_node (coords_tobytes f4 p @ after_leftmost f4 (PInternal children) @ f)
                     (count_leaf ((count_internal ^^ Suc k) c)))))"
proof -
  have "point_well_formed (PInternal children)"
    using PointOctreeNode_well_formed [of np_mean region_min region_size data max_depth current_depth]
    by (simp only: assms)
  from internal_leftmost [OF this] obtain k w p
    where l: "leftmost_leaf (PInternal children) = Some (Suc k, w, p)" by blast
  have d: "\<exists>k w p. leftmost_leaf (PInternal children) = Some (Suc k, w, p)
          \<and> parse_node (point_save f4 (PInternal children) @ f) c
              = (rest_of_loop 7 ^^ k) (rest_of_loop 6
                  (parse_node (coords_tobytes f4 p @ after_leftmost f4 (PInternal children) @ f)
                     (count_leaf ((count_internal ^^ Suc k) c))))"
    using l parse_node_after_leftmost [OF l, of f4 f c] by blast
  have a: "parse_node (point_save f4 (PLeaf v position) @ f) c
          = (True, coords_tobytes f4 position @ f, count_leaf c)"
    using parse_node_leaf [of "f4_tobytes f4 v" "coords_tobytes f4 position @ f" c]
    by (simp add: count_leaf_def)
  have b: "parse_node_detailed s level (point_save f4 (PLeaf v position) @ f) level_stats
          = ((voxel_count s, 1, 0), coords_tobytes f4 position @ f,
             AList.map_entry level
               (\<lambda>st. st\<lparr>leaves := leaves st + 1, voxels := voxels st + voxel_count s\<rparr>)
               (enter_level level level_stats))"
    using parse_node_detailed_leaf [of "f4_tobytes f4 v" s level "coords_tobytes f4 position @ f"]
    by simp
  from a b d show ?thesis by simp
qed

lemma checker_point_root:
  "PointOctreeNode np_mean_exact (0, 0, 0) (2, 2, 2) checker_volume 1 0 =
     PInternal [PLeaf (Finite 0) (0, 0, 0), PLeaf (Finite 1000) (1, 0, 0),
                PLeaf (Finite 1000) (0, 1, 0), PLeaf (Finite 0) (1, 1, 0),
                PLeaf (Finite 1000) (0, 0, 1), PLeaf (Finite 0) (1, 0, 1),
                PLeaf (Finite 0) (0, 1, 1), PLeaf (Finite 1000) (1, 1, 1)]"
  using checker_not_small
  by (simp add: PointOctreeNode.simps [of _ 0 0 0 2 2 2] Let_def checker_vals point_children_list)
     (simp add: PointOctreeNode.simps checker_volume_def)


text \<open>The children of the point tree of depth 1 over the alternating 2 x 2 x 2 volume.\<close>

definition checker_point_leaves :: "pnode list" where
  "checker_point_leaves =
     [PLeaf (Finite 0) (0, 0, 0), PLeaf (Finite 1000) (1, 0, 0),
      PLeaf (Finite 1000) (0, 1, 0), PLeaf (Finite 0) (1, 1, 0),
      PLeaf (Finite 1000) (0, 0, 1), PLeaf (Finite 0) (1, 0, 1),
      PLeaf (Finite 0) (0, 1, 1), PLeaf (Finite 1000) (1, 1, 1)]"

definition no_counts :: counters where
  "no_counts = \<lparr>total_points = 0, leaf_points = 0, internal_nodes = 0\<rparr>"

theorem leaf_payload_width_witness:
  "PointOctreeNode np_mean_exact (0, 0, 0) (2, 2, 2) checker_volume 1 0 = PInternal checker_point_leaves
   \<and> (\<exists>k w p. leftmost_leaf (PInternal checker_point_leaves) = Some (Suc k, w, p)
          \<and> parse_node (point_save f4_examples (PInternal checker_point_leaves) @ []) no_counts
              = (rest_of_loop 7 ^^ k) (rest_of_loop 6
                  (parse_node (coords_tobytes f4_examples p
                       @ after_leftmost f4_examples (PInternal checker_point_leaves) @ [])
                     (count_leaf ((count_internal ^^ Suc k) no_counts)))))"
proof -
  have r: "PointOctreeNode np_mean_exact (0, 0, 0) (2, 2, 2) checker_volume 1 0 = PInternal checker_point_leaves"
    by (simp only: checker_point_root checker_point_leaves_def)
  from leaf_payload_width [OF r, where ?f4.0 = f4_examples and v = "Finite 0"
      and position = "(0, 0, 0)" and f = "[]" and c = no_counts and s = "(1, 1, 1)" and level = 0
      and level_stats = "[]"]
  have "\<exists>k w p. leftmost_leaf (PInternal checker_point_leaves) = Some (Suc k, w, p)
          \<and> parse_node (point_save f4_examples (PInternal checker_point_leaves) @ []) no_counts
              = (rest_of_loop 7 ^^ k) (rest_of_loop 6
                  (parse_node (coords_tobytes f4_examples p
                       @ after_leftmost f4_examples (PInternal checker_point_leaves) @ [])
                     (count_leaf ((count_internal ^^ Suc k) no_counts))))"
    by blast
  with r show ?thesis by blast
qed

text \<open>
  The file that the point-sample builder writes for the 1 x 1 x 1 volume of 5.0: header,
  tag 0, the value, and the coordinates (0, 0, 0).
\<close>

definition point_leaf_file :: "byte list" where
  "point_leaf_file =
     [1, 0, 0, 0, 1, 0, 0, 0, 1, 0, 0, 0,
      0, 0, 0, 0xA0, 0x40, 0, 0, 0, 0, 0, 0, 0, 0, 0, 0, 0, 0]"

text \<open>
  Claim C10 as stated fails for a point-format stream that is a single leaf: the fast mode
  stops after the value, leaves the 12 coordinate bytes unread, and the statistics it reports
  (1 node, 1 leaf, ratio 1) are those of the tree.
\<close>

theorem leaf_payload_width_counterexample:
  "point_root_node np_mean_exact unit_volume 1 = PLeaf (Finite 5) (0, 0, 0)
   \<and> point_octree_file np_mean_exact f4_examples unit_volume = Inr point_leaf_file
   \<and> parse_node (drop 12 point_leaf_file) no_counts
        = (True, [0, 0, 0, 0, 0, 0, 0, 0, 0, 0, 0, 0],
           \<lparr>total_points = 1, leaf_points = 1, internal_nodes = 0\<rparr>)
   \<and> count_octree_points point_leaf_file =
        Statistics \<lparr>total_voxels = 1, total_nodes = 1, leaf_nodes = 1, internal_count = 0,
          compression_ratio = Inr 1, memory_saving = Inr 0\<rparr>"
proof -
  have root: "point_root_node np_mean_exact unit_volume 1 = PLeaf (Finite 5) (0, 0, 0)"
    by (simp add: point_root_node_def PointOctreeNode.simps unit_volume_def)
  have depth: "main_max_depth unit_volume = Inr 1"
    by (simp add: main_max_depth_def unit_volume_def floorlog_def)
  have bytes: "le32 (Suc 0) = [1, 0, 0, 0]" "f4_tobytes f4_examples (Finite 5) = [0, 0, 0xA0, 0x40]"
    "f4_tobytes f4_examples (Finite 0) = [0, 0, 0, 0]"
    by (simp_all add: le32_def f4_tobytes_def f4_examples_def)
  have shape: "shape0 unit_volume = 1" "shape1 unit_volume = 1" "shape2 unit_volume = 1"
    by (simp_all add: unit_volume_def)
  have file_eq: "point_octree_file np_mean_exact f4_examples unit_volume = Inr point_leaf_file"
    by (simp add: point_octree_file_def write_octree_def depth root u4_tobytes_def shape bytes point_leaf_file_def)
  have parse: "parse_node (drop 12 point_leaf_file) no_counts
        = (True, [0, 0, 0, 0, 0, 0, 0, 0, 0, 0, 0, 0],
           \<lparr>total_points = 1, leaf_points = 1, internal_nodes = 0\<rparr>)"
    by (simp add: point_leaf_file_def parse_node.simps no_counts_def)
  have "count_octree_points point_leaf_file =
        Statistics \<lparr>total_voxels = 1, total_nodes = 1, leaf_nodes = 1, internal_count = 0,
          compression_ratio = Inr 1, memory_saving = Inr 0\<rparr>"
    using parse
    by (simp add: count_octree_points_def Let_def no_counts_def truediv_def)
       (simp add: point_leaf_file_def le_value_def)
  with root file_eq parse show ?thesis by blast
qed

end
